theory Spec2Isabelle
  imports Complex_Main
begin

section \<open>Python values and exceptions\<close>

text \<open>
  The exceptions that the weatherman module can raise. Every \<^verbatim>\<open>raise\<close> of the
  interpreter is a value \<open>Inl e\<close> of a result type \<open>py_error + 'a\<close>.
\<close>

datatype py_error =
    KeyError | IndexError | ValueError | TypeError | ZeroDivisionError | OverflowError | OSError

text \<open>
  A Python float: a finite value, which is a real number, or one of the three special
  values, which \<^verbatim>\<open>float('nan')\<close> and \<^verbatim>\<open>float('inf')\<close> parse to and which an
  addition can overflow to.
\<close>

datatype pyfloat = Finite real | PosInf | NegInf | NaN

text \<open>
  The values stored in a row of \<^verbatim>\<open>csv.DictReader\<close> and in a daily reading: a string,
  a float, \<^verbatim>\<open>None\<close> (the \<^verbatim>\<open>restval\<close> of a short row) or a list of strings (the
  surplus fields of a long row, stored under the key \<^verbatim>\<open>None\<close>).
\<close>

datatype pyval = Str string | Num pyfloat | NoneVal | ListVal "string list"

text \<open>
  A \<^verbatim>\<open>dict\<close> is an association list in insertion order. \<^verbatim>\<open>d[k] = v\<close> overwrites the
  value of a key that is present, leaving its position, and appends a new key at the end;
  \<^verbatim>\<open>d[k]\<close> raises \<^verbatim>\<open>KeyError\<close> on a missing key.
\<close>

fun dict_set :: "('k \<times> 'v) list \<Rightarrow> 'k \<Rightarrow> 'v \<Rightarrow> ('k \<times> 'v) list" where
  "dict_set [] k v = [(k, v)]"
| "dict_set ((k', v') # d) k v = (if k' = k then (k, v) # d else (k', v') # dict_set d k v)"

definition dict_get :: "('k \<times> 'v) list \<Rightarrow> 'k \<Rightarrow> py_error + 'v" where
  "dict_get d k = (case map_of d k of None \<Rightarrow> Inl KeyError | Some v \<Rightarrow> Inr v)"

text \<open>Assigning a list of entries to a dict, one after the other, as \<^verbatim>\<open>dict(pairs)\<close> does from the empty dict.\<close>

definition dict_extend :: "('k \<times> 'v) list \<Rightarrow> ('k \<times> 'v) list \<Rightarrow> ('k \<times> 'v) list" where
  "dict_extend d es = foldl (\<lambda>d e. dict_set d (fst e) (snd e)) d es"

text \<open>
  Sequencing: an exception raised by the first computation ends the whole; otherwise its
  value is passed on.
\<close>

definition bind_result :: "py_error + 'a \<Rightarrow> ('a \<Rightarrow> py_error + 'b) \<Rightarrow> py_error + 'b" where
  "bind_result m f = (case m of Inl e \<Rightarrow> Inl e | Inr x \<Rightarrow> f x)"

text \<open>The keys of a row or daily reading: a header name, or \<^verbatim>\<open>None\<close>.\<close>

type_synonym daily = "(string option \<times> pyval) list"
type_synonym monthly = "(int \<times> daily) list"
type_synonym yearly = "(string \<times> monthly) list"

text \<open>
  The library functions that parse text; the module calls them and does not define them.
  \<open>float_of_str\<close> is \<^verbatim>\<open>float(s)\<close>, \<open>int_of_str\<close> is \<^verbatim>\<open>int(s)\<close>,
  \<open>strptime\<close> is \<^verbatim>\<open>datetime.strptime(s, fmt)\<close>, \<open>csv_fields\<close> is the list of
  fields \<^verbatim>\<open>csv.reader\<close> yields for one line, \<open>listdir\<close> is \<^verbatim>\<open>os.listdir\<close> and
  \<open>read_lines\<close> the lines of a file opened for reading. The arithmetic of floats is
  the machine's as well: \<open>float_add\<close> is the binary64 sum \<^verbatim>\<open>x + y\<close> of two floats, and
  \<open>float_div\<close> the binary64 quotient \<^verbatim>\<open>x / n\<close> of a float by a positive \<^verbatim>\<open>int\<close>.
\<close>

datatype month = Jan | Feb | Mar | Apr | May | Jun | Jul | Aug | Sep | Oct | Nov | Dec

record date =
  date_year :: int
  date_month :: month
  date_day :: int

record platform =
  float_of_str :: "string \<Rightarrow> py_error + pyfloat"
  int_of_str :: "string \<Rightarrow> py_error + int"
  strptime :: "string \<Rightarrow> string \<Rightarrow> py_error + date"
  csv_fields :: "string \<Rightarrow> string list"
  listdir :: "string \<Rightarrow> py_error + string list"
  read_lines :: "string \<Rightarrow> py_error + string list"
  float_add :: "pyfloat \<Rightarrow> pyfloat \<Rightarrow> pyfloat"
  float_div :: "pyfloat \<Rightarrow> nat \<Rightarrow> pyfloat"

subsection \<open>Conversions\<close>

text \<open>\<^verbatim>\<open>int(x)\<close> of a float truncates toward zero; it raises on NaN and on the infinities.\<close>

definition trunc :: "real \<Rightarrow> int" where
  "trunc q = (if 0 \<le> q then \<lfloor>q\<rfloor> else \<lceil>q\<rceil>)"

fun py_int :: "platform \<Rightarrow> pyval \<Rightarrow> py_error + int" where
  "py_int p (Num (Finite q)) = Inr (trunc q)"
| "py_int p (Num NaN) = Inl ValueError"
| "py_int p (Num PosInf) = Inl OverflowError"
| "py_int p (Num NegInf) = Inl OverflowError"
| "py_int p (Str s) = int_of_str p s"
| "py_int p NoneVal = Inl TypeError"
| "py_int p (ListVal l) = Inl TypeError"

fun py_float :: "platform \<Rightarrow> pyval \<Rightarrow> py_error + pyfloat" where
  "py_float p (Str s) = float_of_str p s"
| "py_float p (Num x) = Inr x"
| "py_float p NoneVal = Inl TypeError"
| "py_float p (ListVal l) = Inl TypeError"

text \<open>
  \<^verbatim>\<open>round(x)\<close> of a float, with no second argument: the nearest integer, a tie going to
  the even one. It is exact on every finite float, and raises on NaN and on the infinities.
\<close>

definition round_half_even :: "real \<Rightarrow> int" where
  "round_half_even q =
     (let f = \<lfloor>q\<rfloor>; r = q - of_int f
      in if r < 1 / 2 then f
         else if 1 / 2 < r then f + 1
         else if even f then f else f + 1)"

fun py_round :: "pyfloat \<Rightarrow> py_error + int" where
  "py_round (Finite q) = Inr (round_half_even q)"
| "py_round NaN = Inl ValueError"
| "py_round PosInf = Inl OverflowError"
| "py_round NegInf = Inl OverflowError"

text \<open>\<^verbatim>\<open>str(n)\<close> of an integer, and the format \<^verbatim>\<open>"%02d" % n\<close>.\<close>

definition digit_char :: "nat \<Rightarrow> char" where
  "digit_char d = ''0123456789'' ! d"

fun str_nat :: "nat \<Rightarrow> string" where
  "str_nat n = (if n < 10 then [digit_char n] else str_nat (n div 10) @ [digit_char (n mod 10)])"

definition str_int :: "int \<Rightarrow> string" where
  "str_int i = (if i < 0 then CHR ''-'' # str_nat (nat (- i)) else str_nat (nat i))"

definition fmt02d :: "int \<Rightarrow> string" where
  "fmt02d i = (if 0 \<le> i \<and> i < 10 then CHR ''0'' # str_int i else str_int i)"

declare str_nat.simps [simp del]

section \<open>Calculator\<close>

subsection \<open>\<^verbatim>\<open>Calculator.compute\<close>: the extremes of a year\<close>

text \<open>The summary \<^verbatim>\<open>computations\<close>, a dict with six fixed keys, all assigned before it is returned.\<close>

record extremes =
  max_temp :: int
  max_date :: string
  min_temp :: int
  min_date :: string
  max_humidity :: int
  humidity_date :: string

text \<open>The key \<^verbatim>\<open>f'{day} {month}'\<close>.\<close>

definition label :: "int \<Rightarrow> string \<Rightarrow> string" where
  "label d m = str_int d @ '' '' @ m"

text \<open>
  One of the three statements of the loop body:
  \<^verbatim>\<open>if daily_data[f] != '': readings[f'{day} {month}'] = int(daily_data[f])\<close>.
\<close>

definition collect_field ::
  "platform \<Rightarrow> string \<Rightarrow> string \<Rightarrow> daily \<Rightarrow> (string \<times> int) list \<Rightarrow> py_error + (string \<times> int) list" where
  "collect_field p f lbl daily_data readings =
     (case dict_get daily_data (Some f) of
        Inl e \<Rightarrow> Inl e
      | Inr v \<Rightarrow>
          if v \<noteq> Str [] then
            (case py_int p v of Inl e \<Rightarrow> Inl e | Inr i \<Rightarrow> Inr (dict_set readings lbl i))
          else Inr readings)"

type_synonym extreme_dicts = "(string \<times> int) list \<times> (string \<times> int) list \<times> (string \<times> int) list"

definition compute_day ::
  "platform \<Rightarrow> string \<Rightarrow> int \<times> daily \<Rightarrow> extreme_dicts \<Rightarrow> py_error + extreme_dicts" where
  "compute_day p m dd acc =
     (case acc of (max_temps_readings, min_temps_readings, max_humidity_readings) \<Rightarrow>
      bind_result
        (collect_field p ''Max TemperatureC'' (label (fst dd) m) (snd dd) max_temps_readings)
        (\<lambda>a.
      bind_result
        (collect_field p ''Min TemperatureC'' (label (fst dd) m) (snd dd) min_temps_readings)
        (\<lambda>b.
      bind_result
        (collect_field p ''Max Humidity'' (label (fst dd) m) (snd dd) max_humidity_readings)
        (\<lambda>c. Inr (a, b, c)))))"

fun compute_month ::
  "platform \<Rightarrow> string \<Rightarrow> monthly \<Rightarrow> extreme_dicts \<Rightarrow> py_error + extreme_dicts" where
  "compute_month p m [] acc = Inr acc"
| "compute_month p m (dd # monthly_readings) acc =
     (case compute_day p m dd acc of
        Inl e \<Rightarrow> Inl e
      | Inr acc' \<Rightarrow> compute_month p m monthly_readings acc')"

fun compute_year :: "platform \<Rightarrow> yearly \<Rightarrow> extreme_dicts \<Rightarrow> py_error + extreme_dicts" where
  "compute_year p [] acc = Inr acc"
| "compute_year p (mr # readings) acc =
     (case compute_month p (fst mr) (snd mr) acc of
        Inl e \<Rightarrow> Inl e
      | Inr acc' \<Rightarrow> compute_year p readings acc')"

text \<open>
  \<^verbatim>\<open>max(d, key=lambda key: d[key])\<close> and \<^verbatim>\<open>min(d, key=...)\<close>: the keys are visited in
  the order of the dict, and the candidate is replaced only by a strictly greater (for
  \<open>min\<close>: strictly smaller) value. An empty dict raises \<^verbatim>\<open>ValueError\<close>.
\<close>

fun max_scan :: "'k \<times> int \<Rightarrow> ('k \<times> int) list \<Rightarrow> 'k \<times> int" where
  "max_scan best [] = best"
| "max_scan best (x # xs) = max_scan (if snd best < snd x then x else best) xs"

fun min_scan :: "'k \<times> int \<Rightarrow> ('k \<times> int) list \<Rightarrow> 'k \<times> int" where
  "min_scan best [] = best"
| "min_scan best (x # xs) = min_scan (if snd x < snd best then x else best) xs"

definition py_max_key :: "('k \<times> int) list \<Rightarrow> py_error + 'k" where
  "py_max_key d = (case d of [] \<Rightarrow> Inl ValueError | x # xs \<Rightarrow> Inr (fst (max_scan x xs)))"

definition py_min_key :: "('k \<times> int) list \<Rightarrow> py_error + 'k" where
  "py_min_key d = (case d of [] \<Rightarrow> Inl ValueError | x # xs \<Rightarrow> Inr (fst (min_scan x xs)))"

definition compute :: "platform \<Rightarrow> yearly \<Rightarrow> py_error + extremes" where
  "compute p readings =
     bind_result (compute_year p readings ([], [], []))
       (\<lambda>(max_temps_readings, min_temps_readings, max_humidity_readings).
     bind_result (py_max_key max_temps_readings) (\<lambda>max_temp_date.
     bind_result (py_min_key min_temps_readings) (\<lambda>min_temp_date.
     bind_result (py_max_key max_humidity_readings) (\<lambda>max_humidity_date.
     bind_result (dict_get max_temps_readings max_temp_date) (\<lambda>maxt.
     bind_result (dict_get min_temps_readings min_temp_date) (\<lambda>mint.
     bind_result (dict_get max_humidity_readings max_humidity_date) (\<lambda>maxh.
       Inr \<lparr>max_temp = maxt, max_date = max_temp_date,
            min_temp = mint, min_date = min_temp_date,
            max_humidity = maxh, humidity_date = max_humidity_date\<rparr>)))))))"

subsection \<open>\<^verbatim>\<open>compute_monthly_average\<close>\<close>

record averages =
  max_temp_avg :: int
  min_temp_avg :: int
  mean_humidity_avg :: int

text \<open>
  \<^verbatim>\<open>if day[f] != '': total += day[f]; count += 1\<close>. The total starts as the integer 0,
  which the first addition of a float converts to the float 0.0; every addition is the
  float addition of the platform. Adding a string, \<^verbatim>\<open>None\<close> or a list to a number
  raises \<^verbatim>\<open>TypeError\<close>.
\<close>

definition add_field ::
  "platform \<Rightarrow> string \<Rightarrow> daily \<Rightarrow> pyfloat \<times> nat \<Rightarrow> py_error + pyfloat \<times> nat" where
  "add_field p f day tc =
     (case dict_get day (Some f) of
        Inl e \<Rightarrow> Inl e
      | Inr v \<Rightarrow>
          if v \<noteq> Str [] then
            (case v of
               Num x \<Rightarrow> Inr (float_add p (fst tc) x, Suc (snd tc))
             | _ \<Rightarrow> Inl TypeError)
          else Inr tc)"

type_synonym totals = "(pyfloat \<times> nat) \<times> (pyfloat \<times> nat) \<times> (pyfloat \<times> nat)"

definition average_day :: "platform \<Rightarrow> daily \<Rightarrow> totals \<Rightarrow> py_error + totals" where
  "average_day p day acc =
     (case acc of (max_t, min_t, hum) \<Rightarrow>
      bind_result (add_field p ''Max TemperatureC'' day max_t) (\<lambda>a.
      bind_result (add_field p ''Min TemperatureC'' day min_t) (\<lambda>b.
      bind_result (add_field p ''Mean Humidity'' day hum) (\<lambda>c. Inr (a, b, c)))))"

fun average_loop :: "platform \<Rightarrow> daily list \<Rightarrow> totals \<Rightarrow> py_error + totals" where
  "average_loop p [] acc = Inr acc"
| "average_loop p (day # days) acc =
     (case average_day p day acc of Inl e \<Rightarrow> Inl e | Inr acc' \<Rightarrow> average_loop p days acc')"

text \<open>
  \<^verbatim>\<open>round(total / count)\<close>: with no value counted both are the integer 0 and the
  division raises \<^verbatim>\<open>ZeroDivisionError\<close>; otherwise the total is a float, the quotient
  is the float division of the platform, and \<^verbatim>\<open>round\<close> raises when the quotient is not
  finite.
\<close>

definition rounded_mean :: "platform \<Rightarrow> pyfloat \<times> nat \<Rightarrow> py_error + int" where
  "rounded_mean p tc =
     (if snd tc = 0 then Inl ZeroDivisionError else py_round (float_div p (fst tc) (snd tc)))"

definition compute_monthly_average :: "platform \<Rightarrow> monthly \<Rightarrow> py_error + averages" where
  "compute_monthly_average p readings =
     bind_result (average_loop p (map snd readings) ((Finite 0, 0), (Finite 0, 0), (Finite 0, 0)))
       (\<lambda>(max_t, min_t, hum).
     bind_result (rounded_mean p max_t) (\<lambda>a.
     bind_result (rounded_mean p min_t) (\<lambda>b.
     bind_result (rounded_mean p hum) (\<lambda>c.
       Inr \<lparr>max_temp_avg = a, min_temp_avg = b, mean_humidity_avg = c\<rparr>))))"

subsection \<open>\<^verbatim>\<open>compute_min_max\<close>\<close>

type_synonym min_max = "(int \<times> (string \<times> int) list) list"

definition min_max_day :: "platform \<Rightarrow> int \<times> daily \<Rightarrow> min_max \<Rightarrow> py_error + min_max" where
  "min_max_day p dd computations =
     bind_result (dict_get (snd dd) (Some ''Max TemperatureC'')) (\<lambda>max_t.
     bind_result (dict_get (snd dd) (Some ''Min TemperatureC'')) (\<lambda>min_t.
       if max_t \<noteq> Str [] \<and> min_t \<noteq> Str [] then
         bind_result (py_int p max_t) (\<lambda>a.
         bind_result (py_int p min_t) (\<lambda>b.
           Inr (dict_set computations (fst dd) [(''max_temp'', a), (''min_temp'', b)])))
       else Inr computations))"

fun min_max_loop :: "platform \<Rightarrow> monthly \<Rightarrow> min_max \<Rightarrow> py_error + min_max" where
  "min_max_loop p [] computations = Inr computations"
| "min_max_loop p (dd # readings) computations =
     (case min_max_day p dd computations of
        Inl e \<Rightarrow> Inl e
      | Inr computations' \<Rightarrow> min_max_loop p readings computations')"

definition compute_min_max :: "platform \<Rightarrow> monthly \<Rightarrow> py_error + min_max" where
  "compute_min_max p readings = min_max_loop p readings []"

section \<open>ReportGenerator\<close>

text \<open>
  A render prints lines on standard output and returns a dict. The model returns the
  lines printed, in order, together with the dict or the exception; the lines printed
  before an exception stay printed. The returned dicts nest strings and dicts.
\<close>

datatype json = JStr string | JDict "(string \<times> json) list"

type_synonym report = "(string \<times> json) list"

type_synonym 'a printed = "string list \<times> (py_error + 'a)"

text \<open>The summary handed to a render: the result of one of the three computations.\<close>

datatype summary = Extremes extremes | Averages averages | MinMax min_max

definition RED :: string where
  "RED = CHR 0x1B # ''[91m''"

definition BLUE :: string where
  "BLUE = CHR 0x1B # ''[34m''"

definition RESET :: string where
  "RESET = CHR 0x1B # ''[0m''"

text \<open>\<^verbatim>\<open>strftime('%B')\<close> and \<^verbatim>\<open>strftime('%b')\<close> in the C locale.\<close>

fun month_name :: "month \<Rightarrow> string" where
  "month_name Jan = ''January''"
| "month_name Feb = ''February''"
| "month_name Mar = ''March''"
| "month_name Apr = ''April''"
| "month_name May = ''May''"
| "month_name Jun = ''June''"
| "month_name Jul = ''July''"
| "month_name Aug = ''August''"
| "month_name Sep = ''September''"
| "month_name Oct = ''October''"
| "month_name Nov = ''November''"
| "month_name Dec = ''December''"

definition month_abbr :: "month \<Rightarrow> string" where
  "month_abbr m = take 3 (month_name m)"

subsection \<open>\<^verbatim>\<open>ReportGenerator.generate_report\<close> and \<^verbatim>\<open>generate_average_report\<close>\<close>

definition generate_report :: "string \<Rightarrow> extremes \<Rightarrow> report printed" where
  "generate_report report_date results =
     ([''Highest: '' @ str_int (max_temp results) @ ''C on '' @ max_date results,
       ''Lowest: '' @ str_int (min_temp results) @ ''C on '' @ min_date results,
       ''Humidity: '' @ str_int (max_humidity results) @ ''% on '' @ humidity_date results],
      Inr [(''date'', JStr report_date),
           (''highest_temp'',
              JDict [(''value'', JStr (str_int (max_temp results) @ ''C'')),
                     (''date'', JStr (max_date results))]),
           (''lowest_temp'',
              JDict [(''value'', JStr (str_int (min_temp results) @ ''C'')),
                     (''date'', JStr (min_date results))]),
           (''max_humidity'',
              JDict [(''value'', JStr (str_int (max_humidity results) @ ''%'')),
                     (''date'', JStr (humidity_date results))])])"

definition generate_average_report :: "string \<Rightarrow> averages \<Rightarrow> report printed" where
  "generate_average_report report_date results =
     ([''Highest Average: '' @ str_int (max_temp_avg results) @ ''C'',
       ''Lowest Average: '' @ str_int (min_temp_avg results) @ ''C'',
       ''Average Mean Humidity: '' @ str_int (mean_humidity_avg results) @ ''%''],
      Inr [(''date'', JStr report_date),
           (''highest_avg_temp'', JStr (str_int (max_temp_avg results) @ ''C'')),
           (''lowest_avg_temp'', JStr (str_int (min_temp_avg results) @ ''C'')),
           (''avg_mean_humidity'', JStr (str_int (mean_humidity_avg results) @ ''%''))])"

subsection \<open>The two bar charts\<close>

text \<open>
  The header \<^verbatim>\<open>datetime.strptime(self.report_date, '%Y/%m').strftime('%B %Y')\<close>. The
  year is printed as \<^verbatim>\<open>str\<close> prints it, which is what \<^verbatim>\<open>%Y\<close> gives for the years
  from 1000 on.
\<close>

definition bar_header :: "platform \<Rightarrow> string \<Rightarrow> py_error + string" where
  "bar_header p report_date =
     bind_result (strptime p report_date ''%Y/%m'')
       (\<lambda>d. Inr (month_name (date_month d) @ '' '' @ str_int (date_year d)))"

text \<open>\<^verbatim>\<open>"+" * n\<close>: the empty string when \<open>n\<close> is negative.\<close>

definition bar :: "int \<Rightarrow> string" where
  "bar n = replicate (nat n) CHR ''+''"

definition max_line :: "int \<Rightarrow> int \<Rightarrow> string" where
  "max_line d v = fmt02d d @ '' '' @ RED @ bar v @ '' '' @ RESET @ str_int v @ ''C''"

definition min_line :: "int \<Rightarrow> int \<Rightarrow> string" where
  "min_line d v = fmt02d d @ '' '' @ BLUE @ bar v @ '' '' @ RESET @ str_int v @ ''C''"

definition single_line :: "int \<Rightarrow> int \<Rightarrow> int \<Rightarrow> string" where
  "single_line d lo hi =
     fmt02d d @ '' '' @ BLUE @ bar lo @ RED @ bar hi @ '' '' @ RESET @
     str_int lo @ ''C - '' @ str_int hi @ ''C''"

text \<open>
  The loop of \<open>generate_multiple_bar_report\<close>. Each of the two \<^verbatim>\<open>print\<close> calls first
  evaluates its f-string, which reads only \<^verbatim>\<open>readings["max_temp"]\<close> in the first and only
  \<^verbatim>\<open>readings["min_temp"]\<close> in the second.
\<close>

fun multiple_bar_loop :: "min_max \<Rightarrow> unit printed" where
  "multiple_bar_loop [] = ([], Inr ())"
| "multiple_bar_loop (dr # results) =
     (case dict_get (snd dr) ''max_temp'' of
        Inl e \<Rightarrow> ([], Inl e)
      | Inr hi \<Rightarrow>
         (case dict_get (snd dr) ''min_temp'' of
            Inl e \<Rightarrow> ([max_line (fst dr) hi], Inl e)
          | Inr lo \<Rightarrow>
             (case multiple_bar_loop results of
                (out, res) \<Rightarrow> (max_line (fst dr) hi # min_line (fst dr) lo # out, res))))"

text \<open>
  The loop of \<open>generate_single_bar_report\<close>: the f-string reads \<^verbatim>\<open>readings["min_temp"]\<close>
  first.
\<close>

fun single_bar_loop :: "min_max \<Rightarrow> unit printed" where
  "single_bar_loop [] = ([], Inr ())"
| "single_bar_loop (dr # results) =
     (case dict_get (snd dr) ''min_temp'' of
        Inl e \<Rightarrow> ([], Inl e)
      | Inr lo \<Rightarrow>
         (case dict_get (snd dr) ''max_temp'' of
            Inl e \<Rightarrow> ([], Inl e)
          | Inr hi \<Rightarrow>
             (case single_bar_loop results of
                (out, res) \<Rightarrow> (single_line (fst dr) lo hi # out, res))))"

definition generate_multiple_bar_report :: "platform \<Rightarrow> string \<Rightarrow> min_max \<Rightarrow> report printed" where
  "generate_multiple_bar_report p report_date results =
     (case bar_header p report_date of
        Inl e \<Rightarrow> ([], Inl e)
      | Inr header \<Rightarrow>
         (case multiple_bar_loop results of
            (out, res) \<Rightarrow> (header # out, bind_result res (\<lambda>_. Inr []))))"

definition generate_single_bar_report :: "platform \<Rightarrow> string \<Rightarrow> min_max \<Rightarrow> report printed" where
  "generate_single_bar_report p report_date results =
     (case bar_header p report_date of
        Inl e \<Rightarrow> ([], Inl e)
      | Inr header \<Rightarrow>
         (case single_bar_loop results of
            (out, res) \<Rightarrow> (header # out, bind_result res (\<lambda>_. Inr []))))"

section \<open>Reading the weather files\<close>

subsection \<open>String operations\<close>

text \<open>\<^verbatim>\<open>s.split(c)\<close> for a separator of one character: always at least one piece.\<close>

fun split_char :: "char \<Rightarrow> string \<Rightarrow> string list" where
  "split_char c [] = [[]]"
| "split_char c (x # xs) =
     (if x = c then [] # split_char c xs
      else (case split_char c xs of [] \<Rightarrow> [[x]] | w # ws \<Rightarrow> (x # w) # ws))"

text \<open>
  \<^verbatim>\<open>s.strip()\<close>: leading and trailing whitespace removed. The characters of a string
  are the code points below 256, and the whitespace among them is what \<^verbatim>\<open>str.isspace\<close>
  accepts: tab to carriage return, the four separators \<open>0x1C\<close> to \<open>0x1F\<close>, the
  space, the next-line character \<open>0x85\<close> and the no-break space \<open>0xA0\<close>.
\<close>

definition is_space :: "char \<Rightarrow> bool" where
  "is_space c = (c \<in> set [CHR 0x09, CHR 0x0A, CHR 0x0B, CHR 0x0C, CHR 0x0D,
                            CHR 0x1C, CHR 0x1D, CHR 0x1E, CHR 0x1F, CHR 0x20,
                            CHR 0x85, CHR 0xA0])"

definition strip :: "string \<Rightarrow> string" where
  "strip s = rev (dropWhile is_space (rev (dropWhile is_space s)))"

text \<open>\<^verbatim>\<open>q in s\<close> for strings, and \<^verbatim>\<open>s.endswith(suffix)\<close>.\<close>

fun contains :: "string \<Rightarrow> string \<Rightarrow> bool" where
  "contains q [] = (q = [])"
| "contains q (c # s) = (take (length q) (c # s) = q \<or> contains q s)"

definition endswith :: "string \<Rightarrow> string \<Rightarrow> bool" where
  "endswith s suffix =
     (length suffix \<le> length s \<and> drop (length s - length suffix) s = suffix)"

subsection \<open>\<^verbatim>\<open>read_csv\<close>\<close>

text \<open>
  One row of \<^verbatim>\<open>csv.DictReader\<close> with given field names: \<^verbatim>\<open>dict(zip(fieldnames, row))\<close>;
  the surplus fields of a long row are stored as a list under the key \<^verbatim>\<open>None\<close>, and
  the missing fields of a short row are set to \<^verbatim>\<open>None\<close>.
\<close>

definition dict_row :: "string list \<Rightarrow> string list \<Rightarrow> daily" where
  "dict_row fieldnames row =
     (let d = dict_extend [] (zip (map Some fieldnames) (map Str row));
          lf = length fieldnames;
          lr = length row
      in if lf < lr then dict_set d None (ListVal (drop lf row))
         else if lr < lf then dict_extend d (map (\<lambda>key. (Some key, NoneVal)) (drop lr fieldnames))
         else d)"

text \<open>
  \<^verbatim>\<open>list(csv.DictReader(csv_file, fieldnames=header))\<close> on the lines that remain: a
  line on which the reader yields no field is skipped. Each line is taken as one record,
  as it is when no quoted field holds a line break.
\<close>

definition DictReader :: "platform \<Rightarrow> string list \<Rightarrow> string list \<Rightarrow> daily list" where
  "DictReader p lines fieldnames =
     map (dict_row fieldnames) (filter (\<lambda>row. row \<noteq> []) (map (csv_fields p) lines))"

text \<open>
  \<^verbatim>\<open>csv_file.readline()\<close> is the first line, or the empty string at the end of the file;
  \<^verbatim>\<open>header[0] = 'PKT'\<close> cannot fail, since \<^verbatim>\<open>split\<close> returns at least one piece.
\<close>

definition read_csv :: "platform \<Rightarrow> string \<Rightarrow> py_error + daily list" where
  "read_csv p file_path =
     bind_result (read_lines p file_path)
       (\<lambda>lines.
          let header = map strip (split_char CHR '','' (case lines of [] \<Rightarrow> [] | l # _ \<Rightarrow> l))
          in Inr (DictReader p (drop 1 lines) (header[0 := ''PKT''])))"

subsection \<open>\<^verbatim>\<open>DataReader\<close>\<close>

definition get_files :: "platform \<Rightarrow> string \<Rightarrow> string \<Rightarrow> py_error + string list" where
  "get_files p files_dir query_date =
     bind_result (listdir p files_dir)
       (\<lambda>names. Inr (map (\<lambda>f. files_dir @ ''/'' @ f)
                       (filter (\<lambda>f. contains query_date f \<and> endswith f ''.txt'') names)))"

text \<open>
  The loop of \<open>_get_daily_readings\<close> over the keys of the row. The lookup
  \<^verbatim>\<open>daily_data[header]\<close> is of a key of the dict itself.
\<close>

fun daily_loop :: "platform \<Rightarrow> daily \<Rightarrow> string option list \<Rightarrow> daily \<Rightarrow> py_error + daily" where
  "daily_loop p daily_data [] daily_readings = Inr daily_readings"
| "daily_loop p daily_data (header # headers) daily_readings =
     (case dict_get daily_data header of
        Inl e \<Rightarrow> Inl e
      | Inr v \<Rightarrow>
          if header \<notin> set [Some ''PKT'', Some ''Events''] \<and> v \<noteq> Str [] then
            (case py_float p v of
               Inl e \<Rightarrow> Inl e
             | Inr x \<Rightarrow> daily_loop p daily_data headers (dict_set daily_readings header (Num x)))
          else daily_loop p daily_data headers (dict_set daily_readings header v))"

definition get_daily_readings :: "platform \<Rightarrow> daily \<Rightarrow> py_error + daily" where
  "get_daily_readings p daily_data = daily_loop p daily_data (map fst daily_data) []"

text \<open>\<^verbatim>\<open>datetime.strptime(x, fmt)\<close> of a value that need not be a string.\<close>

definition strptime_val :: "platform \<Rightarrow> pyval \<Rightarrow> string \<Rightarrow> py_error + date" where
  "strptime_val p v fmt = (case v of Str s \<Rightarrow> strptime p s fmt | _ \<Rightarrow> Inl TypeError)"

text \<open>The loop of \<open>get_monthly_readings\<close> over the rows of one file.\<close>

fun monthly_loop :: "platform \<Rightarrow> daily list \<Rightarrow> monthly \<Rightarrow> py_error + monthly" where
  "monthly_loop p [] monthly_readings = Inr monthly_readings"
| "monthly_loop p (daily_data # monthly_data) monthly_readings =
     (case bind_result (dict_get daily_data (Some ''PKT''))
             (\<lambda>pkt. bind_result (strptime_val p pkt ''%Y-%m-%d'')
             (\<lambda>d. bind_result (get_daily_readings p daily_data)
             (\<lambda>daily. Inr (dict_set monthly_readings (date_day d) daily)))) of
        Inl e \<Rightarrow> Inl e
      | Inr monthly_readings' \<Rightarrow> monthly_loop p monthly_data monthly_readings')"

text \<open>\<open>get_monthly_readings\<close> called with \<^verbatim>\<open>independent=True\<close>, and with \<^verbatim>\<open>False\<close> and the rows.\<close>

definition get_monthly_readings :: "platform \<Rightarrow> string \<Rightarrow> string \<Rightarrow> py_error + monthly" where
  "get_monthly_readings p files_dir report_date =
     bind_result (strptime p report_date ''%Y/%m'') (\<lambda>d.
     bind_result (get_files p files_dir (str_int (date_year d) @ ''_'' @ month_abbr (date_month d)))
       (\<lambda>files.
     bind_result (case files of [] \<Rightarrow> Inl IndexError | file_name # _ \<Rightarrow> Inr file_name)
       (\<lambda>file_name.
     bind_result (read_csv p file_name) (\<lambda>monthly_data.
       monthly_loop p monthly_data []))))"

definition get_monthly_readings_dependent :: "platform \<Rightarrow> daily list \<Rightarrow> py_error + monthly" where
  "get_monthly_readings_dependent p monthly_data = monthly_loop p monthly_data []"

text \<open>The loop of \<open>get_yearly_readings\<close> over the matching files.\<close>

fun yearly_loop :: "platform \<Rightarrow> string list \<Rightarrow> yearly \<Rightarrow> py_error + yearly" where
  "yearly_loop p [] yearly_readings = Inr yearly_readings"
| "yearly_loop p (file_name # file_list) yearly_readings =
     (case bind_result (read_csv p file_name) (\<lambda>monthly_data.
           bind_result (case monthly_data of [] \<Rightarrow> Inl IndexError | row # _ \<Rightarrow> Inr row)
             (\<lambda>row.
           bind_result (dict_get row (Some ''PKT'')) (\<lambda>pkt.
           bind_result (strptime_val p pkt ''%Y-%m-%d'') (\<lambda>d.
           bind_result (get_monthly_readings_dependent p monthly_data) (\<lambda>monthly.
             Inr (dict_set yearly_readings (month_name (date_month d)) monthly)))))) of
        Inl e \<Rightarrow> Inl e
      | Inr yearly_readings' \<Rightarrow> yearly_loop p file_list yearly_readings')"

definition get_yearly_readings :: "platform \<Rightarrow> string \<Rightarrow> string \<Rightarrow> py_error + yearly" where
  "get_yearly_readings p files_dir report_date =
     bind_result (get_files p files_dir report_date) (\<lambda>file_list. yearly_loop p file_list [])"

section \<open>The driver\<close>

text \<open>
  The two entries of \<^verbatim>\<open>strategies\<close>: \<^verbatim>\<open>None\<close>, which leaves the method of the class
  in place, or one of the strategy functions of the module.
\<close>

datatype calc_strategy = CalcNone | ComputeMonthlyAverage | ComputeMinMax

datatype report_strategy =
    ReportNone | GenerateAverageReport | GenerateMultipleBarReport | GenerateSingleBarReport

datatype readings = Yearly yearly | Monthly monthly

text \<open>
  \<^verbatim>\<open>Calculator(readings, func).compute()\<close>. The strategy is chosen by the caller, not by
  the shape of the readings. On readings of the other shape the loops raise as Python
  does: \<open>compute\<close> subscripts a string or a float (\<^verbatim>\<open>TypeError\<close>) unless every daily
  dict is empty, and the two monthly strategies look a field name up in a dict keyed by
  days (\<^verbatim>\<open>KeyError\<close>) unless there is no month.
\<close>

fun calculator_compute :: "platform \<Rightarrow> calc_strategy \<Rightarrow> readings \<Rightarrow> py_error + summary" where
  "calculator_compute p CalcNone (Yearly r) = bind_result (compute p r) (\<lambda>s. Inr (Extremes s))"
| "calculator_compute p CalcNone (Monthly r) =
     (if list_ex (\<lambda>dd. snd dd \<noteq> []) r then Inl TypeError else Inl ValueError)"
| "calculator_compute p ComputeMonthlyAverage (Monthly r) =
     bind_result (compute_monthly_average p r) (\<lambda>s. Inr (Averages s))"
| "calculator_compute p ComputeMonthlyAverage (Yearly r) =
     (if r = [] then Inl ZeroDivisionError else Inl KeyError)"
| "calculator_compute p ComputeMinMax (Monthly r) =
     bind_result (compute_min_max p r) (\<lambda>s. Inr (MinMax s))"
| "calculator_compute p ComputeMinMax (Yearly r) =
     (if r = [] then Inr (MinMax []) else Inl KeyError)"

text \<open>
  \<^verbatim>\<open>ReportGenerator(computations, date, func).generate_report()\<close>. On a summary of
  another computation the first two renders raise \<^verbatim>\<open>KeyError\<close> before printing, and the
  bar charts print their header and raise \<^verbatim>\<open>TypeError\<close> at \<^verbatim>\<open>"%02d" % day\<close> with a
  string key.
\<close>

fun report_generate :: "platform \<Rightarrow> report_strategy \<Rightarrow> string \<Rightarrow> summary \<Rightarrow> report printed" where
  "report_generate p ReportNone report_date (Extremes s) = generate_report report_date s"
| "report_generate p ReportNone report_date _ = ([], Inl KeyError)"
| "report_generate p GenerateAverageReport report_date (Averages s) =
     generate_average_report report_date s"
| "report_generate p GenerateAverageReport report_date _ = ([], Inl KeyError)"
| "report_generate p GenerateMultipleBarReport report_date (MinMax s) =
     generate_multiple_bar_report p report_date s"
| "report_generate p GenerateSingleBarReport report_date (MinMax s) =
     generate_single_bar_report p report_date s"
| "report_generate p _ report_date _ =
     (case bar_header p report_date of
        Inl e \<Rightarrow> ([], Inl e)
      | Inr header \<Rightarrow> ([header], Inl TypeError))"

record strategies =
  calc_strategy :: calc_strategy
  report_strategy :: report_strategy

text \<open>The body of the loop of \<open>process_args\<close> for one date, up to the report it appends.\<close>

definition process_date ::
  "platform \<Rightarrow> string \<Rightarrow> int \<Rightarrow> string \<Rightarrow> strategies \<Rightarrow> bool \<Rightarrow> report printed" where
  "process_date p date report_num path strats yearly =
     (let banner = CHR 0x0A # ''Report # '' @ str_int report_num in
      case bind_result
             (if yearly then bind_result (get_yearly_readings p path date) (\<lambda>r. Inr (Yearly r))
              else bind_result (get_monthly_readings p path date) (\<lambda>r. Inr (Monthly r)))
             (calculator_compute p (calc_strategy strats)) of
        Inl e \<Rightarrow> ([banner], Inl e)
      | Inr computations \<Rightarrow>
         (case report_generate p (report_strategy strats) date computations of
            (out, res) \<Rightarrow> (banner # out, res)))"

fun process_loop ::
  "platform \<Rightarrow> string list \<Rightarrow> int \<Rightarrow> string \<Rightarrow> strategies \<Rightarrow> bool \<Rightarrow> report list \<Rightarrow>
     report list printed" where
  "process_loop p [] report_num path strats yearly reports = ([], Inr reports)"
| "process_loop p (date # dates) report_num path strats yearly reports =
     (case process_date p date report_num path strats yearly of
        (out, Inl e) \<Rightarrow> (out, Inl e)
      | (out, Inr report) \<Rightarrow>
         (case process_loop p dates (report_num + 1) path strats yearly (reports @ [report]) of
            (out', res) \<Rightarrow> (out @ out', res)))"

definition process_args ::
  "platform \<Rightarrow> string list \<Rightarrow> int \<Rightarrow> string \<Rightarrow> strategies \<Rightarrow> bool \<Rightarrow> report list printed" where
  "process_args p dates report_num path strats yearly =
     process_loop p dates report_num path strats yearly []"

section \<open>Auxiliary definitions for the statements\<close>

text \<open>
  A field of a daily reading as the reader leaves a numeric column: the empty string or a
  finite float.
\<close>

definition numeric_or_empty :: "daily \<Rightarrow> string \<Rightarrow> bool" where
  "numeric_or_empty dd f =
     (case map_of dd (Some f) of
        Some (Num (Finite q)) \<Rightarrow> True
      | Some (Str s) \<Rightarrow> s = []
      | _ \<Rightarrow> False)"

text \<open>Reading a decimal numeral back; used to show that \<open>str_int\<close> is injective.\<close>

definition digit_val :: "char \<Rightarrow> nat" where
  "digit_val c = of_char c - 48"

definition is_digit :: "char \<Rightarrow> bool" where
  "is_digit c = (c \<in> set ''0123456789'')"

definition nat_of_digits :: "string \<Rightarrow> nat" where
  "nat_of_digits s = foldl (\<lambda>a c. 10 * a + digit_val c) 0 s"

text \<open>The entry that one day contributes to the result of \<open>compute_min_max\<close>, if any.\<close>

definition min_max_entry :: "int \<times> daily \<Rightarrow> min_max" where
  "min_max_entry dd =
     (case (map_of (snd dd) (Some ''Max TemperatureC''), map_of (snd dd) (Some ''Min TemperatureC'')) of
        (Some (Num (Finite a)), Some (Num (Finite b))) \<Rightarrow>
           [(fst dd, [(''max_temp'', trunc a), (''min_temp'', trunc b)])]
      | _ \<Rightarrow> [])"

text \<open>Three days of a month: the second has no minimum, the third is below zero.\<close>

definition three_days :: monthly where
  "three_days =
     [(1, [(Some ''PKT'', Str ''2011-7-1''), (Some ''Max TemperatureC'', Num (Finite (459 / 10))),
           (Some ''Min TemperatureC'', Num (Finite (207 / 10)))]),
      (2, [(Some ''PKT'', Str ''2011-7-2''), (Some ''Max TemperatureC'', Num (Finite 30)),
           (Some ''Min TemperatureC'', Str [])]),
      (3, [(Some ''PKT'', Str ''2011-7-3''), (Some ''Max TemperatureC'', Num (Finite (- 3 / 2))),
           (Some ''Min TemperatureC'', Num (Finite (- 37 / 10)))])]"

text \<open>
  The days of a year in the order in which the two nested loops of \<open>compute\<close> visit
  them, each with its label; the entries of one field that are finite floats, in that order;
  and the same entries truncated by \<^verbatim>\<open>int\<close>.
\<close>

definition labelled_days :: "yearly \<Rightarrow> (string \<times> daily) list" where
  "labelled_days r =
     concat (map (\<lambda>mr. map (\<lambda>dd. (label (fst dd) (fst mr), snd dd)) (snd mr)) r)"

definition float_entry :: "string \<Rightarrow> string \<times> daily \<Rightarrow> (string \<times> real) list" where
  "float_entry f ld =
     (case map_of (snd ld) (Some f) of Some (Num (Finite q)) \<Rightarrow> [(fst ld, q)] | _ \<Rightarrow> [])"

definition float_entries :: "string \<Rightarrow> yearly \<Rightarrow> (string \<times> real) list" where
  "float_entries f r = concat (map (float_entry f) (labelled_days r))"

definition trunc_entries :: "string \<Rightarrow> yearly \<Rightarrow> (string \<times> int) list" where
  "trunc_entries f r = map (\<lambda>e. (fst e, trunc (snd e))) (float_entries f r)"

text \<open>
  The three fields that \<open>compute\<close> reads are each the empty string or a finite float.
\<close>

definition day_ok :: "daily \<Rightarrow> bool" where
  "day_ok dd = (numeric_or_empty dd ''Max TemperatureC'' \<and>
     numeric_or_empty dd ''Min TemperatureC'' \<and> numeric_or_empty dd ''Max Humidity'')"

text \<open>
  Well-formed readings of a year: the keys of each dict are distinct, and every day is
  \<open>day_ok\<close>.
\<close>

definition wf_year :: "yearly \<Rightarrow> bool" where
  "wf_year r =
     (distinct (map fst r) \<and>
      list_all (\<lambda>mr. distinct (map fst (snd mr)) \<and> list_all (\<lambda>dd. day_ok (snd dd)) (snd mr)) r)"

text \<open>
  \<open>first_max es w\<close>: the entry \<open>w\<close> is the first one of \<open>es\<close> that attains the
  maximum of the values: every entry before it is strictly smaller, none after it is greater.
\<close>

definition first_max :: "('k \<times> int) list \<Rightarrow> 'k \<times> int \<Rightarrow> bool" where
  "first_max es w =
     (\<exists>pre post. es = pre @ w # post \<and>
        (\<forall>x \<in> set pre. snd x < snd w) \<and> (\<forall>x \<in> set post. snd x \<le> snd w))"

definition first_min :: "('k \<times> int) list \<Rightarrow> 'k \<times> int \<Rightarrow> bool" where
  "first_min es w =
     (\<exists>pre post. es = pre @ w # post \<and>
        (\<forall>x \<in> set pre. snd w < snd x) \<and> (\<forall>x \<in> set post. snd w \<le> snd x))"

text \<open>The truncated entry of one labelled day, and the entries of one month.\<close>

definition trunc_entry :: "string \<Rightarrow> string \<times> daily \<Rightarrow> (string \<times> int) list" where
  "trunc_entry f ld = map (\<lambda>e. (fst e, trunc (snd e))) (float_entry f ld)"

definition month_entries :: "string \<Rightarrow> string \<Rightarrow> monthly \<Rightarrow> (string \<times> int) list" where
  "month_entries f m mr = concat (map (\<lambda>dd. trunc_entry f (label (fst dd) m, snd dd)) mr)"

text \<open>A July with the maximum of 45 on two days, and a July whose later day is the hotter one before truncation.\<close>

definition july_tie :: yearly where
  "july_tie =
     [(''July'',
       [(1, [(Some ''Max TemperatureC'', Num (Finite 44)), (Some ''Min TemperatureC'', Num (Finite 30)),
             (Some ''Max Humidity'', Num (Finite 70))]),
        (2, [(Some ''Max TemperatureC'', Num (Finite 45)), (Some ''Min TemperatureC'', Num (Finite 28)),
             (Some ''Max Humidity'', Num (Finite 80))]),
        (3, [(Some ''Max TemperatureC'', Num (Finite 45)), (Some ''Min TemperatureC'', Num (Finite 28)),
             (Some ''Max Humidity'', Num (Finite 80))])])]"

definition july_fractions :: yearly where
  "july_fractions =
     [(''July'',
       [(1, [(Some ''Max TemperatureC'', Num (Finite (452 / 10))), (Some ''Min TemperatureC'', Num (Finite (309 / 10))),
             (Some ''Max Humidity'', Num (Finite 60))]),
        (2, [(Some ''Max TemperatureC'', Num (Finite (459 / 10))), (Some ''Min TemperatureC'', Num (Finite (301 / 10))),
             (Some ''Max Humidity'', Num (Finite (601 / 10)))])])]"

text \<open>The floats of one field over the days of a month, in the order of the days.\<close>

definition field_value :: "string \<Rightarrow> daily \<Rightarrow> pyfloat list" where
  "field_value f dd = (case map_of dd (Some f) of Some (Num x) \<Rightarrow> [x] | _ \<Rightarrow> [])"

definition field_values :: "string \<Rightarrow> daily list \<Rightarrow> pyfloat list" where
  "field_values f days = concat (map (field_value f) days)"

text \<open>
  The mean as the machine computes it: the values are added one after the other to a
  total that starts at 0, each addition being the float addition of the platform, and the
  total is divided by the number of values by the float division of the platform.
\<close>

definition float_total :: "platform \<Rightarrow> pyfloat list \<Rightarrow> pyfloat" where
  "float_total p xs = foldl (float_add p) (Finite 0) xs"

definition float_mean :: "platform \<Rightarrow> pyfloat list \<Rightarrow> pyfloat" where
  "float_mean p xs = float_div p (float_total p xs) (length xs)"


text \<open>
  A field of a daily reading is the empty string or a float; and the three fields that
  \<open>compute_monthly_average\<close> reads are.
\<close>

definition float_or_empty :: "daily \<Rightarrow> string \<Rightarrow> bool" where
  "float_or_empty dd f =
     (case map_of dd (Some f) of
        Some (Num x) \<Rightarrow> True
      | Some (Str s) \<Rightarrow> s = []
      | _ \<Rightarrow> False)"

definition average_day_ok :: "daily \<Rightarrow> bool" where
  "average_day_ok dd = (float_or_empty dd ''Max TemperatureC'' \<and>
     float_or_empty dd ''Min TemperatureC'' \<and> float_or_empty dd ''Mean Humidity'')"

text \<open>
  The value of \<^verbatim>\<open>round(total / count)\<close> for one field of a month, or the exception it
  raises; and the fields whose \<^verbatim>\<open>round(total / count)\<close> is evaluated before that of a
  given field.
\<close>

definition rounded_average :: "platform \<Rightarrow> string \<Rightarrow> monthly \<Rightarrow> py_error + int" where
  "rounded_average p f mr =
     rounded_mean p (float_total p (field_values f (map snd mr)),
                     length (field_values f (map snd mr)))"

definition fields_before :: "string \<Rightarrow> string list" where
  "fields_before g =
     takeWhile (\<lambda>h. h \<noteq> g) [''Max TemperatureC'', ''Min TemperatureC'', ''Mean Humidity'']"

text \<open>A field has no non-empty value on any of the days: it is absent or the empty string.\<close>

definition no_value_day :: "string \<Rightarrow> daily \<Rightarrow> bool" where
  "no_value_day f dd = (case map_of dd (Some f) of None \<Rightarrow> True | Some v \<Rightarrow> v = Str [])"

definition no_value :: "string \<Rightarrow> daily list \<Rightarrow> bool" where
  "no_value f days = list_all (no_value_day f) days"

text \<open>A year in which no day has a maximum humidity, and a month in which no day has a mean humidity.\<close>

definition year_without_humidity :: yearly where
  "year_without_humidity =
     [(''July'',
       [(1, [(Some ''Max TemperatureC'', Num (Finite 44)), (Some ''Min TemperatureC'', Num (Finite 30)),
             (Some ''Max Humidity'', Str [])]),
        (2, [(Some ''Max TemperatureC'', Num (Finite 45)), (Some ''Min TemperatureC'', Num (Finite 28)),
             (Some ''Max Humidity'', Str [])])])]"

definition month_without_humidity :: monthly where
  "month_without_humidity =
     [(1, [(Some ''Max TemperatureC'', Num (Finite 24)), (Some ''Min TemperatureC'', Num (Finite 25)),
           (Some ''Mean Humidity'', Str []), (Some ''Max Humidity'', Num (Finite 70))]),
      (2, [(Some ''Max TemperatureC'', Num (Finite 25)), (Some ''Min TemperatureC'', Num (Finite 26)),
           (Some ''Mean Humidity'', Str []), (Some ''Max Humidity'', Num (Finite 80))])]"

text \<open>Two days whose means are 24.5, 25.5 and 50.5; the maximum humidity is empty on both.\<close>

definition two_days :: monthly where
  "two_days =
     [(1, [(Some ''Max TemperatureC'', Num (Finite 24)), (Some ''Min TemperatureC'', Num (Finite 25)),
           (Some ''Mean Humidity'', Num (Finite 50)), (Some ''Max Humidity'', Str [])]),
      (2, [(Some ''Max TemperatureC'', Num (Finite 25)), (Some ''Min TemperatureC'', Num (Finite 26)),
           (Some ''Mean Humidity'', Num (Finite 51)), (Some ''Max Humidity'', Str [])])]"

text \<open>The text of a printed line up to its first space: for a bar line, the day.\<close>

definition line_key :: "string \<Rightarrow> string" where
  "line_key l = takeWhile (\<lambda>c. c \<noteq> CHR '' '') l"

text \<open>
  \<open>plus_run l n\<close>: the line \<open>l\<close> contains a run of \<open>n\<close> marker characters and no other
  marker character.
\<close>

definition plus_run :: "string \<Rightarrow> nat \<Rightarrow> bool" where
  "plus_run l n =
     (\<exists>pre post. l = pre @ replicate n CHR ''+'' @ post \<and>
        CHR ''+'' \<notin> set pre \<and> CHR ''+'' \<notin> set post)"

text \<open>A day of a summary has both of its values.\<close>

definition has_bars :: "int \<times> (string \<times> int) list \<Rightarrow> bool" where
  "has_bars dr = (map_of (snd dr) ''max_temp'' \<noteq> None \<and> map_of (snd dr) ''min_temp'' \<noteq> None)"

text \<open>The lines of one day in the two charts.\<close>

definition bar_lines :: "int \<times> (string \<times> int) list \<Rightarrow> string list" where
  "bar_lines dr =
     (case (map_of (snd dr) ''max_temp'', map_of (snd dr) ''min_temp'') of
        (Some hi, Some lo) \<Rightarrow> [max_line (fst dr) hi, min_line (fst dr) lo]
      | _ \<Rightarrow> [])"

definition single_bar_line :: "int \<times> (string \<times> int) list \<Rightarrow> string list" where
  "single_bar_line dr =
     (case (map_of (snd dr) ''max_temp'', map_of (snd dr) ''min_temp'') of
        (Some hi, Some lo) \<Rightarrow> [single_line (fst dr) lo hi]
      | _ \<Rightarrow> [])"

text \<open>A platform that parses the one month \<^verbatim>\<open>2011/7\<close> and on which nothing else succeeds, and a summary whose days were inserted in descending order, one of them below zero.\<close>

definition july_platform :: platform where
  "july_platform =
     \<lparr>float_of_str = (\<lambda>s. Inl ValueError),
      int_of_str = (\<lambda>s. Inl ValueError),
      strptime = (\<lambda>s fmt. if s = ''2011/7'' \<and> fmt = ''%Y/%m''
                           then Inr \<lparr>date_year = 2011, date_month = Jul, date_day = 1\<rparr>
                           else Inl ValueError),
      csv_fields = (\<lambda>l. []),
      listdir = (\<lambda>d. Inl OSError),
      read_lines = (\<lambda>f. Inl OSError),
      float_add = (\<lambda>x y. NaN),
      float_div = (\<lambda>x n. NaN)\<rparr>"

definition descending_summary :: min_max where
  "descending_summary =
     [(2, [(''max_temp'', 5), (''min_temp'', 3)]),
      (1, [(''max_temp'', 4), (''min_temp'', - 3)])]"

text \<open>A raw row as the data model has it: field names mapped to strings.\<close>

definition is_text :: "string option \<times> pyval \<Rightarrow> bool" where
  "is_text kv =
     (case fst kv of
        None \<Rightarrow> False
      | Some h \<Rightarrow> (case snd kv of Str s \<Rightarrow> True | _ \<Rightarrow> False))"

definition raw_row :: "daily \<Rightarrow> bool" where
  "raw_row daily_data = list_all is_text daily_data"

text \<open>
  The field is one that \<open>_get_daily_readings\<close> converts, and the value that the reading
  gets for it when \<^verbatim>\<open>float\<close> accepts the text.
\<close>

definition is_converted :: "string option \<times> pyval \<Rightarrow> bool" where
  "is_converted kv = (fst kv \<notin> set [Some ''PKT'', Some ''Events''] \<and> snd kv \<noteq> Str [])"

definition field_parses :: "platform \<Rightarrow> string option \<times> pyval \<Rightarrow> bool" where
  "field_parses p kv = (is_converted kv \<longrightarrow> \<not> isl (py_float p (snd kv)))"

definition typed_field :: "platform \<Rightarrow> string option \<times> pyval \<Rightarrow> string option \<times> pyval" where
  "typed_field p kv =
     (if is_converted kv
      then (case py_float p (snd kv) of Inr x \<Rightarrow> (fst kv, Num x) | Inl e \<Rightarrow> kv)
      else kv)"

text \<open>
  A directory with the file of July 2011, which has two days, and the file of August 2011,
  which has its header line only; and a platform that reads them.
\<close>

definition july_lines :: "string list" where
  "july_lines =
     [''PKT,Max TemperatureC,Min TemperatureC,Max Humidity, Mean Humidity,Events'' @ [CHR 0x0A],
      ''2011-7-1,30,20,80,60,Rain'' @ [CHR 0x0A],
      ''2011-7-2,33,,85,65,'' @ [CHR 0x0A]]"

definition august_lines :: "string list" where
  "august_lines =
     [''PKT,Max TemperatureC,Min TemperatureC,Max Humidity, Mean Humidity,Events'' @ [CHR 0x0A]]"

definition sample_floats :: "(string \<times> pyfloat) list" where
  "sample_floats =
     [(''30'', Finite 30), (''20'', Finite 20), (''80'', Finite 80), (''60'', Finite 60),
      (''33'', Finite 33), (''85'', Finite 85), (''65'', Finite 65)]"

definition sample_dates :: "((string \<times> string) \<times> date) list" where
  "sample_dates =
     [((''2011/7'', ''%Y/%m''), \<lparr>date_year = 2011, date_month = Jul, date_day = 1\<rparr>),
      ((''2011/8'', ''%Y/%m''), \<lparr>date_year = 2011, date_month = Aug, date_day = 1\<rparr>),
      ((''2011/9'', ''%Y/%m''), \<lparr>date_year = 2011, date_month = Sep, date_day = 1\<rparr>),
      ((''2011-7-1'', ''%Y-%m-%d''), \<lparr>date_year = 2011, date_month = Jul, date_day = 1\<rparr>),
      ((''2011-7-2'', ''%Y-%m-%d''), \<lparr>date_year = 2011, date_month = Jul, date_day = 2\<rparr>)]"

text \<open>
  The sums and quotients of binary64 arithmetic on the values of the samples: all of them
  are exact, the operands and results being integers or halves of integers below 1000.
\<close>

definition sample_sums :: "((pyfloat \<times> pyfloat) \<times> pyfloat) list" where
  "sample_sums =
     [((Finite 0, Finite 24), Finite 24), ((Finite 24, Finite 25), Finite 49),
      ((Finite 0, Finite 25), Finite 25), ((Finite 25, Finite 26), Finite 51),
      ((Finite 0, Finite 50), Finite 50), ((Finite 50, Finite 51), Finite 101),
      ((Finite 0, Finite 30), Finite 30), ((Finite 30, Finite 33), Finite 63),
      ((Finite 0, Finite 20), Finite 20),
      ((Finite 0, Finite 60), Finite 60), ((Finite 60, Finite 65), Finite 125)]"

definition sample_quotients :: "((pyfloat \<times> nat) \<times> pyfloat) list" where
  "sample_quotients =
     [((Finite 49, 2), Finite (49 / 2)), ((Finite 51, 2), Finite (51 / 2)),
      ((Finite 101, 2), Finite (101 / 2)), ((Finite 63, 2), Finite (63 / 2)),
      ((Finite 20, 1), Finite 20), ((Finite 125, 2), Finite (125 / 2))]"

definition sample_platform :: platform where
  "sample_platform =
     \<lparr>float_of_str = (\<lambda>s. case map_of sample_floats s of Some x \<Rightarrow> Inr x | None \<Rightarrow> Inl ValueError),
      int_of_str = (\<lambda>s. Inl ValueError),
      strptime = (\<lambda>s fmt. case map_of sample_dates (s, fmt) of
                             Some d \<Rightarrow> Inr d | None \<Rightarrow> Inl ValueError),
      csv_fields = (\<lambda>l. let t = takeWhile (\<lambda>c. c \<noteq> CHR 0x0A) l
                         in if t = [] then [] else split_char CHR '','' t),
      listdir = (\<lambda>d. if d = ''weatherfiles''
                      then Inr [''Murree_weather_2011_Jul.txt'', ''notes.md'',
                                ''Murree_weather_2011_Aug.txt'']
                      else Inl OSError),
      read_lines = (\<lambda>f. if f = ''weatherfiles/Murree_weather_2011_Jul.txt'' then Inr july_lines
                         else if f = ''weatherfiles/Murree_weather_2011_Aug.txt'' then Inr august_lines
                         else Inl OSError),
      float_add = (\<lambda>x y. case map_of sample_sums (x, y) of Some z \<Rightarrow> z | None \<Rightarrow> NaN),
      float_div = (\<lambda>x n. case map_of sample_quotients (x, n) of Some z \<Rightarrow> z | None \<Rightarrow> NaN)\<rparr>"

definition first_july_row :: daily where
  "first_july_row =
     [(Some ''PKT'', Str ''2011-7-1''), (Some ''Max TemperatureC'', Str ''30''),
      (Some ''Min TemperatureC'', Str []), (Some ''Events'', Str ''Rain'')]"

text \<open>The strategies of the monthly average report.\<close>

definition average_strategies :: strategies where
  "average_strategies =
     \<lparr>calc_strategy = ComputeMonthlyAverage, report_strategy = GenerateAverageReport\<rparr>"

text \<open>The readings of July 2011 in the sample directory, as \<open>get_monthly_readings\<close> types them.\<close>

definition july_readings :: monthly where
  "july_readings =
     [(1, [(Some ''PKT'', Str ''2011-7-1''), (Some ''Max TemperatureC'', Num (Finite 30)),
           (Some ''Min TemperatureC'', Num (Finite 20)), (Some ''Max Humidity'', Num (Finite 80)),
           (Some ''Mean Humidity'', Num (Finite 60)), (Some ''Events'', Str ''Rain'')]),
      (2, [(Some ''PKT'', Str ''2011-7-2''), (Some ''Max TemperatureC'', Num (Finite 33)),
           (Some ''Min TemperatureC'', Str []), (Some ''Max Humidity'', Num (Finite 85)),
           (Some ''Mean Humidity'', Num (Finite 65)), (Some ''Events'', Str [])])]"

text \<open>The average report of July 2011 in the sample directory.\<close>

definition july_report :: report where
  "july_report =
     [(''date'', JStr ''2011/7''), (''highest_avg_temp'', JStr ''32C''),
      (''lowest_avg_temp'', JStr ''20C''), (''avg_mean_humidity'', JStr ''62%'')]"

section \<open>Properties\<close>

subsection \<open>Dicts\<close>

lemma dict_set_fresh: "k \<notin> fst ` set d \<Longrightarrow> dict_set d k v = d @ [(k, v)]"
  by (induction d) auto

subsection \<open>Decimal numerals and labels\<close>

lemma digit_char_is_digit: "d < 10 \<Longrightarrow> is_digit (digit_char d)"
proof -
  assume "d < 10"
  then have "d \<in> {0, 1, 2, 3, 4, 5, 6, 7, 8, 9}" by auto
  then show ?thesis by (auto simp: is_digit_def digit_char_def)
qed

lemma digit_val_digit_char: "d < 10 \<Longrightarrow> digit_val (digit_char d) = d"
proof -
  assume "d < 10"
  then have "d \<in> {0, 1, 2, 3, 4, 5, 6, 7, 8, 9}" by auto
  then show ?thesis by (auto simp: digit_val_def digit_char_def)
qed

lemma str_nat_digits: "c \<in> set (str_nat n) \<Longrightarrow> is_digit c"
proof (induction n arbitrary: c rule: str_nat.induct)
  case (1 n)
  show ?case
  proof (cases "n < 10")
    case True
    then show ?thesis using "1.prems" by (simp add: str_nat.simps[of n] digit_char_is_digit)
  next
    case False
    then show ?thesis using "1.prems" "1.IH"
      by (auto simp: str_nat.simps[of n] digit_char_is_digit)
  qed
qed

lemma str_nat_nonempty: "str_nat n \<noteq> []"
  by (simp add: str_nat.simps[of n])

lemma nat_of_digits_str_nat: "nat_of_digits (str_nat n) = n"
proof (induction n rule: str_nat.induct)
  case (1 n)
  show ?case
  proof (cases "n < 10")
    case True
    then show ?thesis by (simp add: str_nat.simps[of n] nat_of_digits_def digit_val_digit_char)
  next
    case False
    then have "nat_of_digits (str_nat (n div 10)) = n div 10" using "1.IH" by simp
    then show ?thesis using False
      by (simp add: str_nat.simps[of n] nat_of_digits_def digit_val_digit_char)
  qed
qed

lemma str_nat_inj: "str_nat a = str_nat b \<Longrightarrow> a = b"
  by (metis nat_of_digits_str_nat)

lemma str_int_inj: "str_int a = str_int b \<Longrightarrow> a = b"
proof -
  assume eq: "str_int a = str_int b"
  have nd: "\<not> is_digit CHR ''-''" by (simp add: is_digit_def)
  have no_minus: "hd (str_nat n) \<noteq> CHR ''-''" for n
    using str_nat_digits[of "hd (str_nat n)" n] str_nat_nonempty[of n] nd by auto
  show ?thesis
  proof (cases "a < 0"; cases "b < 0")
    assume "a < 0" "b < 0"
    then have "nat (- a) = nat (- b)" using eq str_nat_inj by (simp add: str_int_def)
    then show ?thesis using \<open>a < 0\<close> \<open>b < 0\<close> by simp
  next
    assume "a < 0" "\<not> b < 0"
    then have "CHR ''-'' # str_nat (nat (- a)) = str_nat (nat b)" using eq by (simp add: str_int_def)
    then show ?thesis using no_minus[of "nat b"] by (metis list.sel(1))
  next
    assume "\<not> a < 0" "b < 0"
    then have "CHR ''-'' # str_nat (nat (- b)) = str_nat (nat a)" using eq by (simp add: str_int_def)
    then show ?thesis using no_minus[of "nat a"] by (metis list.sel(1))
  next
    assume "\<not> a < 0" "\<not> b < 0"
    then have "nat a = nat b" using eq str_nat_inj by (simp add: str_int_def)
    then show ?thesis using \<open>\<not> a < 0\<close> \<open>\<not> b < 0\<close> by simp
  qed
qed

lemma str_int_no_space: "CHR '' '' \<notin> set (str_int i)"
proof -
  have "\<not> is_digit CHR '' ''" by (simp add: is_digit_def)
  then have "CHR '' '' \<notin> set (str_nat n)" for n using str_nat_digits by blast
  then show ?thesis by (simp add: str_int_def)
qed

lemma split_at_space:
  assumes "a @ CHR '' '' # x = b @ CHR '' '' # y" "CHR '' '' \<notin> set a" "CHR '' '' \<notin> set b"
  shows "a = b \<and> x = y"
  using assms
proof (induction a arbitrary: b)
  case Nil
  then show ?case by (cases b) auto
next
  case (Cons c a)
  then show ?case by (cases b) auto
qed

lemma label_inj: "label d m = label d' m' \<Longrightarrow> d = d' \<and> m = m'"
  unfolding label_def
  using split_at_space[of "str_int d" m "str_int d'" m'] str_int_no_space str_int_inj
  by auto

subsection \<open>\<^verbatim>\<open>compute_min_max\<close>\<close>

lemma min_max_entry_keys: "(k, v) \<in> set (min_max_entry dd) \<Longrightarrow> k = fst dd"
  by (auto simp: min_max_entry_def split: option.splits pyval.splits pyfloat.splits)

lemma min_max_entries_keys: "fst ` set (concat (map min_max_entry r)) \<subseteq> fst ` set r"
  by (force dest!: min_max_entry_keys)

lemma min_max_entries_absent:
  "d \<notin> fst ` set r \<Longrightarrow> map_of (concat (map min_max_entry r)) d = None"
  using min_max_entries_keys[of r] unfolding map_of_eq_None_iff by blast

lemma min_max_day_wf:
  assumes "numeric_or_empty (snd dd) ''Max TemperatureC''"
    and "numeric_or_empty (snd dd) ''Min TemperatureC''"
    and "fst dd \<notin> fst ` set acc"
  shows "min_max_day p dd acc = Inr (acc @ min_max_entry dd)"
  using assms
  by (auto simp: min_max_day_def numeric_or_empty_def bind_result_def dict_get_def
      min_max_entry_def dict_set_fresh
      split: option.splits pyval.splits pyfloat.splits)

lemma min_max_loop_wf:
  assumes "distinct (map fst r)"
    and "\<forall>dd \<in> set r. numeric_or_empty (snd dd) ''Max TemperatureC'' \<and>
           numeric_or_empty (snd dd) ''Min TemperatureC''"
    and "fst ` set r \<inter> fst ` set acc = {}"
  shows "min_max_loop p r acc = Inr (acc @ concat (map min_max_entry r))"
  using assms
proof (induction r arbitrary: acc)
  case Nil
  then show ?case by simp
next
  case (Cons dd r)
  have d: "min_max_day p dd acc = Inr (acc @ min_max_entry dd)"
    using Cons.prems by (intro min_max_day_wf) auto
  have "fst ` set r \<inter> fst ` set (acc @ min_max_entry dd) = {}"
    using Cons.prems by (auto simp: image_iff dest!: min_max_entry_keys)
  then have "min_max_loop p r (acc @ min_max_entry dd) =
      Inr ((acc @ min_max_entry dd) @ concat (map min_max_entry r))"
    using Cons.prems by (intro Cons.IH) auto
  then show ?case using d by simp
qed

lemma map_of_concat_entries:
  assumes "distinct (map fst r)" and "(d, dd) \<in> set r"
  shows "map_of (concat (map min_max_entry r)) d = map_of (min_max_entry (d, dd)) d"
  using assms
proof (induction r)
  case Nil
  then show ?case by simp
next
  case (Cons x r)
  show ?case
  proof (cases "x = (d, dd)")
    case True
    then have "d \<notin> fst ` set r" using Cons.prems by auto
    then have "map_of (concat (map min_max_entry r)) d = None"
      by (rule min_max_entries_absent)
    then show ?thesis using True by (auto simp: map_add_def split: option.splits)
  next
    case False
    then have in_r: "(d, dd) \<in> set r" using Cons.prems by auto
    then have "fst x \<noteq> d" using Cons.prems by (auto simp: image_iff)
    then have "map_of (min_max_entry x) d = None"
      by (auto simp: map_of_eq_None_iff dest!: min_max_entry_keys)
    then show ?thesis using Cons.IH in_r Cons.prems by (auto simp: map_add_def)
  qed
qed

text \<open>
  C8. \<open>compute_min_max\<close> on a month of well-formed readings (distinct days; both
  temperature fields empty or a finite float) returns a dict in which every day with both
  fields non-empty has the pair of the two values truncated toward zero, and in which a day
  with an empty field has no key; no exception is raised.
\<close>

theorem compute_min_max_truncates_and_omits:
  assumes "distinct (map fst r)"
    and "\<forall>dd \<in> set r. numeric_or_empty (snd dd) ''Max TemperatureC'' \<and>
           numeric_or_empty (snd dd) ''Min TemperatureC''"
  shows "\<exists>m. compute_min_max p r = Inr m \<and>
     (\<forall>d dd a b. (d, dd) \<in> set r \<and>
          map_of dd (Some ''Max TemperatureC'') = Some (Num (Finite a)) \<and>
          map_of dd (Some ''Min TemperatureC'') = Some (Num (Finite b)) \<longrightarrow>
          map_of m d = Some [(''max_temp'', trunc a), (''min_temp'', trunc b)]) \<and>
     (\<forall>d dd. (d, dd) \<in> set r \<and>
          (map_of dd (Some ''Max TemperatureC'') = Some (Str []) \<or>
           map_of dd (Some ''Min TemperatureC'') = Some (Str [])) \<longrightarrow>
          map_of m d = None) \<and>
     fst ` set m \<subseteq> fst ` set r"
proof -
  let ?m = "concat (map min_max_entry r)"
  have res: "compute_min_max p r = Inr ?m"
    using min_max_loop_wf[OF assms, of "[]" p] by (simp add: compute_min_max_def)
  have present: "map_of ?m d = Some [(''max_temp'', trunc a), (''min_temp'', trunc b)]"
    if "(d, dd) \<in> set r" "map_of dd (Some ''Max TemperatureC'') = Some (Num (Finite a))"
      "map_of dd (Some ''Min TemperatureC'') = Some (Num (Finite b))" for d dd a b
    using map_of_concat_entries[OF assms(1) that(1)] that(2,3)
    by (simp add: min_max_entry_def)
  have absent: "map_of ?m d = None"
    if "(d, dd) \<in> set r" "map_of dd (Some ''Max TemperatureC'') = Some (Str []) \<or>
           map_of dd (Some ''Min TemperatureC'') = Some (Str [])" for d dd
    using map_of_concat_entries[OF assms(1) that(1)] that(2)
    by (auto simp: min_max_entry_def split: option.splits pyval.splits pyfloat.splits)
  have keys: "fst ` set ?m \<subseteq> fst ` set r"
    by (rule min_max_entries_keys)
  show ?thesis using res present absent keys by blast
qed

theorem compute_min_max_truncates_and_omits_witness:
  "distinct (map fst three_days) \<and>
   list_all (\<lambda>dd. numeric_or_empty (snd dd) ''Max TemperatureC'' \<and>
           numeric_or_empty (snd dd) ''Min TemperatureC'') three_days \<and>
   (\<forall>p. \<exists>m. compute_min_max p three_days = Inr m \<and>
      map_of m 1 = Some [(''max_temp'', 45), (''min_temp'', 20)] \<and>
      map_of m 2 = None \<and>
      map_of m 3 = Some [(''max_temp'', - 1), (''min_temp'', - 3)])"
proof -
  have d: "distinct (map fst three_days)" by (simp add: three_days_def)
  have wf: "\<forall>dd \<in> set three_days. numeric_or_empty (snd dd) ''Max TemperatureC'' \<and>
           numeric_or_empty (snd dd) ''Min TemperatureC''"
    by (simp add: three_days_def numeric_or_empty_def)
  have "\<exists>m. compute_min_max p three_days = Inr m \<and>
      map_of m 1 = Some [(''max_temp'', 45), (''min_temp'', 20)] \<and>
      map_of m 2 = None \<and>
      map_of m 3 = Some [(''max_temp'', - 1), (''min_temp'', - 3)]" for p
  proof -
    from compute_min_max_truncates_and_omits[OF d wf, of p]
    obtain m where m: "compute_min_max p three_days = Inr m"
      and present: "\<forall>d dd a b. (d, dd) \<in> set three_days \<and>
          map_of dd (Some ''Max TemperatureC'') = Some (Num (Finite a)) \<and>
          map_of dd (Some ''Min TemperatureC'') = Some (Num (Finite b)) \<longrightarrow>
          map_of m d = Some [(''max_temp'', trunc a), (''min_temp'', trunc b)]"
      and absent: "\<forall>d dd. (d, dd) \<in> set three_days \<and>
          (map_of dd (Some ''Max TemperatureC'') = Some (Str []) \<or>
           map_of dd (Some ''Min TemperatureC'') = Some (Str [])) \<longrightarrow>
          map_of m d = None"
      by (elim exE conjE)
    have m1: "map_of m 1 = Some [(''max_temp'', 45), (''min_temp'', 20)]"
      using present[rule_format, of 1 "snd (three_days ! 0)" "459 / 10" "207 / 10"]
      by (simp add: three_days_def trunc_def)
    have m2: "map_of m 2 = None"
      using absent[rule_format, of 2 "snd (three_days ! 1)"]
      by (simp add: three_days_def)
    have m3: "map_of m 3 = Some [(''max_temp'', - 1), (''min_temp'', - 3)]"
      using present[rule_format, of 3 "snd (three_days ! 2)" "- 3 / 2" "- 37 / 10"]
      by (simp add: three_days_def trunc_def)
    show ?thesis using m m1 m2 m3 by blast
  qed
  then show ?thesis using d wf by (simp add: list_all_iff)
qed

subsection \<open>Assigning entries\<close>

lemma dict_extend_Nil [simp]: "dict_extend d [] = d"
  by (simp add: dict_extend_def)

lemma dict_extend_append: "dict_extend d (xs @ ys) = dict_extend (dict_extend d xs) ys"
  by (simp add: dict_extend_def)

lemma dict_extend_distinct:
  "distinct (map fst (d @ es)) \<Longrightarrow> dict_extend d es = d @ es"
proof (induction es arbitrary: d)
  case Nil
  then show ?case by simp
next
  case (Cons e es)
  have fresh: "fst e \<notin> fst ` set d" using Cons.prems by auto
  have "dict_extend d (e # es) = dict_extend (dict_set d (fst e) (snd e)) es"
    by (simp add: dict_extend_def)
  also have "\<dots> = dict_extend (d @ [e]) es" using dict_set_fresh[OF fresh] by simp
  also have "\<dots> = (d @ [e]) @ es" using Cons.prems by (intro Cons.IH) simp
  finally show ?case by simp
qed

subsection \<open>The scans of \<open>max\<close> and \<open>min\<close>\<close>

lemma max_scan_first:
  assumes "\<forall>x \<in> set pre. snd x < snd best" "\<forall>x \<in> set mid. snd x \<le> snd best"
  shows "first_max (pre @ best # mid @ xs) (max_scan best xs)"
  using assms
proof (induction xs arbitrary: pre best mid)
  case Nil
  then show ?case unfolding first_max_def by auto
next
  case (Cons x xs)
  show ?case
  proof (cases "snd best < snd x")
    case True
    have "first_max ((pre @ best # mid) @ x # [] @ xs) (max_scan x xs)"
      using Cons.prems True by (intro Cons.IH) auto
    then show ?thesis using True by simp
  next
    case False
    have "first_max (pre @ best # (mid @ [x]) @ xs) (max_scan best xs)"
      using Cons.prems False by (intro Cons.IH) auto
    then show ?thesis using False by simp
  qed
qed

lemma min_scan_first:
  assumes "\<forall>x \<in> set pre. snd best < snd x" "\<forall>x \<in> set mid. snd best \<le> snd x"
  shows "first_min (pre @ best # mid @ xs) (min_scan best xs)"
  using assms
proof (induction xs arbitrary: pre best mid)
  case Nil
  then show ?case unfolding first_min_def by auto
next
  case (Cons x xs)
  show ?case
  proof (cases "snd x < snd best")
    case True
    have "first_min ((pre @ best # mid) @ x # [] @ xs) (min_scan x xs)"
      using Cons.prems True by (intro Cons.IH) auto
    then show ?thesis using True by simp
  next
    case False
    have "first_min (pre @ best # (mid @ [x]) @ xs) (min_scan best xs)"
      using Cons.prems False by (intro Cons.IH) auto
    then show ?thesis using False by simp
  qed
qed

lemma first_max_mem: "first_max es w \<Longrightarrow> w \<in> set es"
  by (auto simp: first_max_def)

lemma first_min_mem: "first_min es w \<Longrightarrow> w \<in> set es"
  by (auto simp: first_min_def)

lemma py_max_key_first:
  assumes "es \<noteq> []" "distinct (map fst es)"
  shows "\<exists>w. py_max_key es = Inr (fst w) \<and> dict_get es (fst w) = Inr (snd w) \<and> first_max es w"
proof -
  obtain x xs where es: "es = x # xs" using assms(1) by (cases es) auto
  let ?w = "max_scan x xs"
  have fm: "first_max es ?w" using max_scan_first[of "[]" x "[]" xs] es by simp
  then have "?w \<in> set es" by (rule first_max_mem)
  then have "map_of es (fst ?w) = Some (snd ?w)" using assms(2) by simp
  then have dg: "dict_get es (fst ?w) = Inr (snd ?w)" by (simp add: dict_get_def)
  have pk: "py_max_key es = Inr (fst ?w)" using es by (simp add: py_max_key_def)
  show ?thesis using pk dg fm by blast
qed

lemma py_min_key_first:
  assumes "es \<noteq> []" "distinct (map fst es)"
  shows "\<exists>w. py_min_key es = Inr (fst w) \<and> dict_get es (fst w) = Inr (snd w) \<and> first_min es w"
proof -
  obtain x xs where es: "es = x # xs" using assms(1) by (cases es) auto
  let ?w = "min_scan x xs"
  have fm: "first_min es ?w" using min_scan_first[of "[]" x "[]" xs] es by simp
  then have "?w \<in> set es" by (rule first_min_mem)
  then have "map_of es (fst ?w) = Some (snd ?w)" using assms(2) by simp
  then have dg: "dict_get es (fst ?w) = Inr (snd ?w)" by (simp add: dict_get_def)
  have pk: "py_min_key es = Inr (fst ?w)" using es by (simp add: py_min_key_def)
  show ?thesis using pk dg fm by blast
qed

subsection \<open>The collecting loop on well-formed readings\<close>

lemma collect_field_wf:
  assumes "numeric_or_empty dd f"
  shows "collect_field p f lbl dd d = Inr (dict_extend d (trunc_entry f (lbl, dd)))"
  using assms
  by (auto simp: collect_field_def numeric_or_empty_def dict_get_def trunc_entry_def
      float_entry_def dict_extend_def split: option.splits pyval.splits pyfloat.splits)

lemma compute_day_wf:
  assumes "day_ok (snd dd)"
  shows "compute_day p m dd (a, b, c) =
     Inr (dict_extend a (trunc_entry ''Max TemperatureC'' (label (fst dd) m, snd dd)),
          dict_extend b (trunc_entry ''Min TemperatureC'' (label (fst dd) m, snd dd)),
          dict_extend c (trunc_entry ''Max Humidity'' (label (fst dd) m, snd dd)))"
  using assms by (simp add: compute_day_def day_ok_def collect_field_wf bind_result_def)

lemma compute_month_wf:
  assumes "list_all (\<lambda>dd. day_ok (snd dd)) mr"
  shows "compute_month p m mr (a, b, c) =
     Inr (dict_extend a (month_entries ''Max TemperatureC'' m mr),
          dict_extend b (month_entries ''Min TemperatureC'' m mr),
          dict_extend c (month_entries ''Max Humidity'' m mr))"
  using assms
proof (induction mr arbitrary: a b c)
  case Nil
  then show ?case by (simp add: month_entries_def)
next
  case (Cons dd mr)
  then show ?case
    by (simp add: compute_day_wf month_entries_def dict_extend_append)
qed

lemma trunc_entries_Cons:
  "trunc_entries f (mr # r) = month_entries f (fst mr) (snd mr) @ trunc_entries f r"
  by (simp add: trunc_entries_def float_entries_def labelled_days_def month_entries_def
      trunc_entry_def map_concat comp_def)

lemma compute_year_wf:
  assumes "list_all (\<lambda>mr. list_all (\<lambda>dd. day_ok (snd dd)) (snd mr)) r"
  shows "compute_year p r (a, b, c) =
     Inr (dict_extend a (trunc_entries ''Max TemperatureC'' r),
          dict_extend b (trunc_entries ''Min TemperatureC'' r),
          dict_extend c (trunc_entries ''Max Humidity'' r))"
  using assms
proof (induction r arbitrary: a b c)
  case Nil
  then show ?case by (simp add: trunc_entries_def float_entries_def labelled_days_def)
next
  case (Cons mr r)
  then show ?case
    by (simp add: compute_month_wf trunc_entries_Cons dict_extend_append)
qed

subsection \<open>Labels are distinct\<close>

lemma labelled_days_Cons:
  "labelled_days (mr # r) = map (\<lambda>dd. (label (fst dd) (fst mr), snd dd)) (snd mr) @ labelled_days r"
  by (simp add: labelled_days_def)

lemma labelled_days_month: "x \<in> set (labelled_days r) \<Longrightarrow> \<exists>d m. fst x = label d m \<and> m \<in> fst ` set r"
  by (force simp: labelled_days_def)

lemma distinct_month_labels:
  "distinct (map fst mr) \<Longrightarrow> distinct (map (\<lambda>dd. label (fst dd) m) mr)"
proof (induction mr)
  case Nil
  then show ?case by simp
next
  case (Cons dd mr)
  then show ?case using label_inj by (force simp: image_iff)
qed

lemma distinct_labels:
  assumes "distinct (map fst r)" "list_all (\<lambda>mr. distinct (map fst (snd mr))) r"
  shows "distinct (map fst (labelled_days r))"
  using assms
proof (induction r)
  case Nil
  then show ?case by (simp add: labelled_days_def)
next
  case (Cons mr r)
  have 1: "distinct (map (\<lambda>dd. label (fst dd) (fst mr)) (snd mr))"
    using Cons.prems by (intro distinct_month_labels) simp
  have 2: "distinct (map fst (labelled_days r))" using Cons by simp
  have 3: "label (fst dd) (fst mr) \<noteq> fst x" if "x \<in> set (labelled_days r)" for dd x
  proof
    assume eq: "label (fst dd) (fst mr) = fst x"
    from labelled_days_month[OF that]
    obtain d m where "fst x = label d m" "m \<in> fst ` set r" by blast
    then have "fst mr \<in> fst ` set r" using eq label_inj by metis
    then show False using Cons.prems(1) by simp
  qed
  show ?case using 1 2 3 by (auto simp: labelled_days_Cons comp_def)
qed

lemma float_entry_key: "e \<in> set (float_entry f ld) \<Longrightarrow> fst e = fst ld"
  by (auto simp: float_entry_def split: option.splits pyval.splits pyfloat.splits)

lemma float_entry_short: "length (float_entry f ld) \<le> 1"
  by (auto simp: float_entry_def split: option.splits pyval.splits pyfloat.splits)

lemma distinct_concat_entries:
  assumes "distinct (map fst xs)"
  shows "distinct (map fst (concat (map (float_entry f) xs)))"
  using assms
proof (induction xs)
  case Nil
  then show ?case by simp
next
  case (Cons x xs)
  have one: "distinct (map fst (float_entry f x))"
    using float_entry_short[of f x] by (cases "float_entry f x") auto
  have keys: "fst e \<in> fst ` set xs" if "e \<in> set (concat (map (float_entry f) xs))" for e
  proof -
    from that obtain y where y: "y \<in> set xs" "e \<in> set (float_entry f y)" by auto
    then have "fst e = fst y" using float_entry_key by blast
    then show ?thesis using y(1) by simp
  qed
  have "fst a \<noteq> fst e" if "a \<in> set (float_entry f x)" "e \<in> set (concat (map (float_entry f) xs))" for a e
  proof -
    have "fst x \<notin> fst ` set xs" using Cons.prems by simp
    then show ?thesis using float_entry_key[OF that(1)] keys[OF that(2)] by metis
  qed
  then show ?case using one Cons by (auto simp del: set_concat)
qed

lemma distinct_trunc_entries:
  assumes "distinct (map fst r)" "list_all (\<lambda>mr. distinct (map fst (snd mr))) r"
  shows "distinct (map fst (trunc_entries f r))"
  using distinct_concat_entries[OF distinct_labels[OF assms], of f]
  by (simp add: trunc_entries_def float_entries_def comp_def)

lemma compute_wf:
  assumes "wf_year r"
    and "trunc_entries ''Max TemperatureC'' r \<noteq> []"
    and "trunc_entries ''Min TemperatureC'' r \<noteq> []"
    and "trunc_entries ''Max Humidity'' r \<noteq> []"
  shows "\<exists>a b c. compute p r =
       Inr \<lparr>max_temp = snd a, max_date = fst a, min_temp = snd b, min_date = fst b,
            max_humidity = snd c, humidity_date = fst c\<rparr> \<and>
     first_max (trunc_entries ''Max TemperatureC'' r) a \<and>
     first_min (trunc_entries ''Min TemperatureC'' r) b \<and>
     first_max (trunc_entries ''Max Humidity'' r) c"
proof -
  have keys: "distinct (map fst r)" "list_all (\<lambda>mr. distinct (map fst (snd mr))) r"
    and days: "list_all (\<lambda>mr. list_all (\<lambda>dd. day_ok (snd dd)) (snd mr)) r"
    using assms(1) by (auto simp: wf_year_def list_all_iff)
  have dist: "distinct (map fst (trunc_entries f r))" for f
    using distinct_trunc_entries[OF keys] .
  have ext: "dict_extend [] (trunc_entries f r) = trunc_entries f r" for f
    using dict_extend_distinct[of "[]" "trunc_entries f r"] dist by simp
  have loop: "compute_year p r ([], [], []) =
      Inr (trunc_entries ''Max TemperatureC'' r, trunc_entries ''Min TemperatureC'' r,
           trunc_entries ''Max Humidity'' r)"
    using compute_year_wf[OF days, of p "[]" "[]" "[]"] by (simp add: ext)
  obtain a where a: "py_max_key (trunc_entries ''Max TemperatureC'' r) = Inr (fst a)"
      "dict_get (trunc_entries ''Max TemperatureC'' r) (fst a) = Inr (snd a)"
      "first_max (trunc_entries ''Max TemperatureC'' r) a"
    using py_max_key_first[OF assms(2) dist] by blast
  obtain b where b: "py_min_key (trunc_entries ''Min TemperatureC'' r) = Inr (fst b)"
      "dict_get (trunc_entries ''Min TemperatureC'' r) (fst b) = Inr (snd b)"
      "first_min (trunc_entries ''Min TemperatureC'' r) b"
    using py_min_key_first[OF assms(3) dist] by blast
  obtain c where c: "py_max_key (trunc_entries ''Max Humidity'' r) = Inr (fst c)"
      "dict_get (trunc_entries ''Max Humidity'' r) (fst c) = Inr (snd c)"
      "first_max (trunc_entries ''Max Humidity'' r) c"
    using py_max_key_first[OF assms(4) dist] by blast
  have "compute p r =
       Inr \<lparr>max_temp = snd a, max_date = fst a, min_temp = snd b, min_date = fst b,
            max_humidity = snd c, humidity_date = fst c\<rparr>"
    by (simp add: compute_def loop bind_result_def a(1,2) b(1,2) c(1,2))
  then show ?thesis using a(3) b(3) c(3) by blast
qed

text \<open>
  C1. On well-formed readings in which each of the three fields has a value,
  \<open>compute\<close> returns a summary whose label and value for the maximum temperature are the
  first entry, in the order of the two nested loops, that attains the maximum of the
  (truncated) values; likewise the first entry attaining the minimum for the minimum
  temperature, and the first attaining the maximum for the humidity.
\<close>

theorem compute_ties_first_occurrence:
  assumes "wf_year r"
    and "trunc_entries ''Max TemperatureC'' r \<noteq> []"
    and "trunc_entries ''Min TemperatureC'' r \<noteq> []"
    and "trunc_entries ''Max Humidity'' r \<noteq> []"
  shows "\<exists>s. compute p r = Inr s \<and>
     first_max (trunc_entries ''Max TemperatureC'' r) (max_date s, max_temp s) \<and>
     first_min (trunc_entries ''Min TemperatureC'' r) (min_date s, min_temp s) \<and>
     first_max (trunc_entries ''Max Humidity'' r) (humidity_date s, max_humidity s)"
proof -
  from compute_wf[OF assms, of p] obtain a b c where
    "compute p r =
       Inr \<lparr>max_temp = snd a, max_date = fst a, min_temp = snd b, min_date = fst b,
            max_humidity = snd c, humidity_date = fst c\<rparr>"
    "first_max (trunc_entries ''Max TemperatureC'' r) a"
    "first_min (trunc_entries ''Min TemperatureC'' r) b"
    "first_max (trunc_entries ''Max Humidity'' r) c"
    by blast
  then show ?thesis by simp
qed

lemma july_tie_entries:
  "trunc_entries ''Max TemperatureC'' july_tie = [(''1 July'', 44), (''2 July'', 45), (''3 July'', 45)]"
  "trunc_entries ''Min TemperatureC'' july_tie = [(''1 July'', 30), (''2 July'', 28), (''3 July'', 28)]"
  "trunc_entries ''Max Humidity'' july_tie = [(''1 July'', 70), (''2 July'', 80), (''3 July'', 80)]"
  by (simp_all add: trunc_entries_def float_entries_def labelled_days_def float_entry_def
      july_tie_def label_def str_int_def str_nat.simps digit_char_def trunc_def)

lemma first_max_unique:
  assumes "first_max es w" "first_max es w'"
  shows "w = w'"
proof -
  obtain pre post where 1: "es = pre @ w # post" "\<forall>x \<in> set pre. snd x < snd w"
      "\<forall>x \<in> set post. snd x \<le> snd w"
    using assms(1) unfolding first_max_def by blast
  obtain pre' post' where 2: "es = pre' @ w' # post'" "\<forall>x \<in> set pre'. snd x < snd w'"
      "\<forall>x \<in> set post'. snd x \<le> snd w'"
    using assms(2) unfolding first_max_def by blast
  have eq: "pre @ w # post = pre' @ w' # post'" using 1(1) 2(1) by simp
  then consider (same) "pre = pre'" | (shorter) us where "us \<noteq> []" "pre @ us = pre'"
    | (longer) us where "us \<noteq> []" "pre = pre' @ us"
    by (metis append_eq_append_conv2 append_Nil2)
  then show ?thesis
  proof cases
    case same
    then show ?thesis using eq by simp
  next
    case shorter
    then have "w # post = us @ w' # post'" using eq by auto
    then have "w \<in> set us" "w' \<in> set post" using shorter(1) by (cases us; auto)+
    then have "snd w < snd w'" "snd w' \<le> snd w" using 1(3) 2(2) shorter(2) by auto
    then show ?thesis by simp
  next
    case longer
    then have "us @ w # post = w' # post'" using eq by auto
    then have "w' \<in> set us" "w \<in> set post'" using longer(1) by (cases us; auto)+
    then have "snd w' < snd w" "snd w \<le> snd w'" using 1(2) 2(3) longer(2) by auto
    then show ?thesis by simp
  qed
qed

lemma first_min_unique:
  assumes "first_min es w" "first_min es w'"
  shows "w = w'"
proof -
  obtain pre post where 1: "es = pre @ w # post" "\<forall>x \<in> set pre. snd w < snd x"
      "\<forall>x \<in> set post. snd w \<le> snd x"
    using assms(1) unfolding first_min_def by blast
  obtain pre' post' where 2: "es = pre' @ w' # post'" "\<forall>x \<in> set pre'. snd w' < snd x"
      "\<forall>x \<in> set post'. snd w' \<le> snd x"
    using assms(2) unfolding first_min_def by blast
  have eq: "pre @ w # post = pre' @ w' # post'" using 1(1) 2(1) by simp
  then consider (same) "pre = pre'" | (shorter) us where "us \<noteq> []" "pre @ us = pre'"
    | (longer) us where "us \<noteq> []" "pre = pre' @ us"
    by (metis append_eq_append_conv2 append_Nil2)
  then show ?thesis
  proof cases
    case same
    then show ?thesis using eq by simp
  next
    case shorter
    then have "w # post = us @ w' # post'" using eq by auto
    then have "w \<in> set us" "w' \<in> set post" using shorter(1) by (cases us; auto)+
    then have "snd w' < snd w" "snd w \<le> snd w'" using 1(3) 2(2) shorter(2) by auto
    then show ?thesis by simp
  next
    case longer
    then have "us @ w # post = w' # post'" using eq by auto
    then have "w' \<in> set us" "w \<in> set post'" using longer(1) by (cases us; auto)+
    then have "snd w < snd w'" "snd w' \<le> snd w" using 1(2) 2(3) longer(2) by auto
    then show ?thesis by simp
  qed
qed

lemma first_maxI:
  "es = pre @ w # post \<Longrightarrow> list_all (\<lambda>x. snd x < snd w) pre \<Longrightarrow>
   list_all (\<lambda>x. snd x \<le> snd w) post \<Longrightarrow> first_max es w"
  unfolding first_max_def list_all_iff by blast

lemma first_minI:
  "es = pre @ w # post \<Longrightarrow> list_all (\<lambda>x. snd w < snd x) pre \<Longrightarrow>
   list_all (\<lambda>x. snd w \<le> snd x) post \<Longrightarrow> first_min es w"
  unfolding first_min_def list_all_iff by blast

theorem compute_ties_first_occurrence_witness:
  "wf_year july_tie \<and>
   (\<forall>p. \<exists>s. compute p july_tie = Inr s \<and>
      max_date s = ''2 July'' \<and> max_temp s = 45 \<and>
      min_date s = ''2 July'' \<and> min_temp s = 28 \<and>
      humidity_date s = ''2 July'' \<and> max_humidity s = 80)"
proof -
  have wf: "wf_year july_tie"
    by (simp add: wf_year_def july_tie_def day_ok_def numeric_or_empty_def)
  have ne: "trunc_entries ''Max TemperatureC'' july_tie \<noteq> []"
    "trunc_entries ''Min TemperatureC'' july_tie \<noteq> []"
    "trunc_entries ''Max Humidity'' july_tie \<noteq> []"
    by (simp_all add: july_tie_entries)
  have "\<exists>s. compute p july_tie = Inr s \<and>
      max_date s = ''2 July'' \<and> max_temp s = 45 \<and>
      min_date s = ''2 July'' \<and> min_temp s = 28 \<and>
      humidity_date s = ''2 July'' \<and> max_humidity s = 80" for p
  proof -
    from compute_ties_first_occurrence[OF wf ne, of p] obtain s where
      s: "compute p july_tie = Inr s"
      and a: "first_max (trunc_entries ''Max TemperatureC'' july_tie) (max_date s, max_temp s)"
      and b: "first_min (trunc_entries ''Min TemperatureC'' july_tie) (min_date s, min_temp s)"
      and c: "first_max (trunc_entries ''Max Humidity'' july_tie) (humidity_date s, max_humidity s)"
      by blast
    have "first_max (trunc_entries ''Max TemperatureC'' july_tie) (''2 July'', 45)"
      by (rule first_maxI[where pre = "[(''1 July'', 44)]" and post = "[(''3 July'', 45)]"])
        (simp_all add: july_tie_entries)
    then have a': "(max_date s, max_temp s) = (''2 July'', 45)" using a first_max_unique by blast
    have "first_min (trunc_entries ''Min TemperatureC'' july_tie) (''2 July'', 28)"
      by (rule first_minI[where pre = "[(''1 July'', 30)]" and post = "[(''3 July'', 28)]"])
        (simp_all add: july_tie_entries)
    then have b': "(min_date s, min_temp s) = (''2 July'', 28)" using b first_min_unique by blast
    have "first_max (trunc_entries ''Max Humidity'' july_tie) (''2 July'', 80)"
      by (rule first_maxI[where pre = "[(''1 July'', 70)]" and post = "[(''3 July'', 80)]"])
        (simp_all add: july_tie_entries)
    then have c': "(humidity_date s, max_humidity s) = (''2 July'', 80)"
      using c first_max_unique by blast
    show ?thesis using s a' b' c' by simp
  qed
  then show ?thesis using wf by blast
qed


lemmas compute_eval =
  compute_def compute_day_def collect_field_def dict_get_def bind_result_def
  py_max_key_def py_min_key_def label_def str_int_def str_nat.simps digit_char_def trunc_def

lemma compute_july_fractions:
  "compute p july_fractions =
     Inr \<lparr>max_temp = 45, max_date = ''1 July'', min_temp = 30, min_date = ''1 July'',
          max_humidity = 60, humidity_date = ''1 July''\<rparr>"
  by (simp add: july_fractions_def compute_eval)

lemma float_entries_july_fractions:
  "float_entries ''Max TemperatureC'' july_fractions = [(''1 July'', 452 / 10), (''2 July'', 459 / 10)]"
  by (simp add: float_entries_def labelled_days_def float_entry_def july_fractions_def compute_eval)

lemma first_max_greatest: "first_max es w \<Longrightarrow> w \<in> set es \<and> (\<forall>x \<in> set es. snd x \<le> snd w)"
  by (fastforce simp: first_max_def)

lemma first_min_least: "first_min es w \<Longrightarrow> w \<in> set es \<and> (\<forall>x \<in> set es. snd w \<le> snd x)"
  by (fastforce simp: first_min_def)

lemma trunc_entries_mem:
  "(l, i) \<in> set (trunc_entries f r) \<Longrightarrow> \<exists>q. (l, q) \<in> set (float_entries f r) \<and> i = trunc q"
  by (auto simp: trunc_entries_def)

lemma trunc_entries_bound:
  "\<forall>x \<in> set (trunc_entries f r). snd x \<le> i \<Longrightarrow> e \<in> set (float_entries f r) \<Longrightarrow> trunc (snd e) \<le> i"
  by (auto simp: trunc_entries_def)

lemma trunc_entries_bound_below:
  "\<forall>x \<in> set (trunc_entries f r). i \<le> snd x \<Longrightarrow> e \<in> set (float_entries f r) \<Longrightarrow> i \<le> trunc (snd e)"
  by (auto simp: trunc_entries_def)

text \<open>
  C9. On well-formed readings in which each of the three fields has a value, the values of
  the summary are \<^verbatim>\<open>int\<close> truncations of stored floats, and the winning entry is
  extreme among the truncated values. A day whose float is strictly the greatest can
  therefore lose to an earlier day with the same truncation: in \<open>july_fractions\<close> the
  second day has 45.9 against 45.2, and the summary names the first day, with 45.
\<close>

theorem compute_compares_truncated_values:
  "(wf_year r \<and> trunc_entries ''Max TemperatureC'' r \<noteq> [] \<and>
    trunc_entries ''Min TemperatureC'' r \<noteq> [] \<and> trunc_entries ''Max Humidity'' r \<noteq> [] \<longrightarrow>
    (\<exists>s. compute p r = Inr s \<and>
      (\<exists>q. (max_date s, q) \<in> set (float_entries ''Max TemperatureC'' r) \<and> max_temp s = trunc q) \<and>
      (\<forall>e \<in> set (float_entries ''Max TemperatureC'' r). trunc (snd e) \<le> max_temp s) \<and>
      (\<exists>q. (min_date s, q) \<in> set (float_entries ''Min TemperatureC'' r) \<and> min_temp s = trunc q) \<and>
      (\<forall>e \<in> set (float_entries ''Min TemperatureC'' r). min_temp s \<le> trunc (snd e)) \<and>
      (\<exists>q. (humidity_date s, q) \<in> set (float_entries ''Max Humidity'' r) \<and> max_humidity s = trunc q) \<and>
      (\<forall>e \<in> set (float_entries ''Max Humidity'' r). trunc (snd e) \<le> max_humidity s))) \<and>
   (\<exists>r' s l q. wf_year r' \<and> compute p r' = Inr s \<and>
      (l, q) \<in> set (float_entries ''Max TemperatureC'' r') \<and>
      (\<forall>e \<in> set (float_entries ''Max TemperatureC'' r'). e \<noteq> (l, q) \<longrightarrow> snd e < q) \<and>
      max_date s \<noteq> l \<and> max_temp s = trunc q)"
proof (intro conjI impI)
  assume "wf_year r \<and> trunc_entries ''Max TemperatureC'' r \<noteq> [] \<and>
    trunc_entries ''Min TemperatureC'' r \<noteq> [] \<and> trunc_entries ''Max Humidity'' r \<noteq> []"
  then have "\<exists>a b c. compute p r =
       Inr \<lparr>max_temp = snd a, max_date = fst a, min_temp = snd b, min_date = fst b,
            max_humidity = snd c, humidity_date = fst c\<rparr> \<and>
     first_max (trunc_entries ''Max TemperatureC'' r) a \<and>
     first_min (trunc_entries ''Min TemperatureC'' r) b \<and>
     first_max (trunc_entries ''Max Humidity'' r) c"
    by (intro compute_wf) simp_all
  then obtain a b c where s: "compute p r =
       Inr \<lparr>max_temp = snd a, max_date = fst a, min_temp = snd b, min_date = fst b,
            max_humidity = snd c, humidity_date = fst c\<rparr>"
    and a: "first_max (trunc_entries ''Max TemperatureC'' r) a"
    and b: "first_min (trunc_entries ''Min TemperatureC'' r) b"
    and c: "first_max (trunc_entries ''Max Humidity'' r) c"
    by blast
  let ?s = "\<lparr>max_temp = snd a, max_date = fst a, min_temp = snd b, min_date = fst b,
            max_humidity = snd c, humidity_date = fst c\<rparr>"
  have a1: "\<exists>q. (fst a, q) \<in> set (float_entries ''Max TemperatureC'' r) \<and> snd a = trunc q"
    using first_max_greatest[OF a] trunc_entries_mem[of "fst a" "snd a"] by simp
  have a2: "\<forall>e \<in> set (float_entries ''Max TemperatureC'' r). trunc (snd e) \<le> snd a"
    using first_max_greatest[OF a] trunc_entries_bound by blast
  have b1: "\<exists>q. (fst b, q) \<in> set (float_entries ''Min TemperatureC'' r) \<and> snd b = trunc q"
    using first_min_least[OF b] trunc_entries_mem[of "fst b" "snd b"] by simp
  have b2: "\<forall>e \<in> set (float_entries ''Min TemperatureC'' r). snd b \<le> trunc (snd e)"
    using first_min_least[OF b] trunc_entries_bound_below by blast
  have c1: "\<exists>q. (fst c, q) \<in> set (float_entries ''Max Humidity'' r) \<and> snd c = trunc q"
    using first_max_greatest[OF c] trunc_entries_mem[of "fst c" "snd c"] by simp
  have c2: "\<forall>e \<in> set (float_entries ''Max Humidity'' r). trunc (snd e) \<le> snd c"
    using first_max_greatest[OF c] trunc_entries_bound by blast
  show "\<exists>s. compute p r = Inr s \<and>
      (\<exists>q. (max_date s, q) \<in> set (float_entries ''Max TemperatureC'' r) \<and> max_temp s = trunc q) \<and>
      (\<forall>e \<in> set (float_entries ''Max TemperatureC'' r). trunc (snd e) \<le> max_temp s) \<and>
      (\<exists>q. (min_date s, q) \<in> set (float_entries ''Min TemperatureC'' r) \<and> min_temp s = trunc q) \<and>
      (\<forall>e \<in> set (float_entries ''Min TemperatureC'' r). min_temp s \<le> trunc (snd e)) \<and>
      (\<exists>q. (humidity_date s, q) \<in> set (float_entries ''Max Humidity'' r) \<and> max_humidity s = trunc q) \<and>
      (\<forall>e \<in> set (float_entries ''Max Humidity'' r). trunc (snd e) \<le> max_humidity s)"
    by (rule exI[of _ ?s]) (simp add: s a1 a2 b1 b2 c1 c2)
next
  have wf: "wf_year july_fractions"
    by (simp add: wf_year_def july_fractions_def day_ok_def numeric_or_empty_def)
  show "\<exists>r' s l q. wf_year r' \<and> compute p r' = Inr s \<and>
      (l, q) \<in> set (float_entries ''Max TemperatureC'' r') \<and>
      (\<forall>e \<in> set (float_entries ''Max TemperatureC'' r'). e \<noteq> (l, q) \<longrightarrow> snd e < q) \<and>
      max_date s \<noteq> l \<and> max_temp s = trunc q"
    apply (rule exI[of _ july_fractions])
    apply (rule exI[of _ "\<lparr>max_temp = 45, max_date = ''1 July'', min_temp = 30, min_date = ''1 July'',
          max_humidity = 60, humidity_date = ''1 July''\<rparr>"])
    apply (rule exI[of _ "''2 July''"])
    apply (rule exI[of _ "459 / 10"])
    apply (simp add: wf compute_july_fractions float_entries_july_fractions trunc_def)
    done
qed

theorem compute_compares_truncated_values_witness:
  "wf_year july_fractions \<and>
   float_entries ''Max TemperatureC'' july_fractions = [(''1 July'', 452 / 10), (''2 July'', 459 / 10)] \<and>
   (\<forall>p. \<exists>s. compute p july_fractions = Inr s \<and> max_temp s = 45 \<and> max_date s = ''1 July'')"
proof -
  have wf: "wf_year july_fractions"
    by (simp add: wf_year_def july_fractions_def day_ok_def numeric_or_empty_def)
  have ne: "trunc_entries ''Max TemperatureC'' july_fractions \<noteq> []"
    "trunc_entries ''Min TemperatureC'' july_fractions \<noteq> []"
    "trunc_entries ''Max Humidity'' july_fractions \<noteq> []"
    by (simp_all add: trunc_entries_def float_entries_def labelled_days_def float_entry_def
        july_fractions_def)
  have "\<exists>s. compute p july_fractions = Inr s \<and> max_temp s = 45 \<and> max_date s = ''1 July''" for p
  proof -
    from compute_compares_truncated_values[of july_fractions p, THEN conjunct1] wf ne
    obtain s where s: "compute p july_fractions = Inr s" by blast
    then show ?thesis using compute_july_fractions[of p] by auto
  qed
  then show ?thesis using wf float_entries_july_fractions by blast
qed

subsection \<open>Rounding\<close>



subsection \<open>\<^verbatim>\<open>compute_monthly_average\<close>\<close>

lemma add_field_wf:
  assumes "float_or_empty dd f"
  shows "add_field p f dd (t, n) =
     Inr (foldl (float_add p) t (field_value f dd), n + length (field_value f dd))"
  using assms
  by (auto simp: add_field_def float_or_empty_def dict_get_def field_value_def
      split: option.splits pyval.splits)

lemma average_loop_wf:
  assumes "list_all average_day_ok days"
  shows "average_loop p days ((t1, n1), (t2, n2), (t3, n3)) =
     Inr ((foldl (float_add p) t1 (field_values ''Max TemperatureC'' days),
            n1 + length (field_values ''Max TemperatureC'' days)),
          (foldl (float_add p) t2 (field_values ''Min TemperatureC'' days),
            n2 + length (field_values ''Min TemperatureC'' days)),
          (foldl (float_add p) t3 (field_values ''Mean Humidity'' days),
            n3 + length (field_values ''Mean Humidity'' days)))"
  using assms
proof (induction days arbitrary: t1 n1 t2 n2 t3 n3)
  case Nil
  then show ?case by (simp add: field_values_def)
next
  case (Cons dd days)
  then show ?case
    by (simp add: average_day_def average_day_ok_def add_field_wf bind_result_def
        field_values_def add.assoc)
qed

lemma compute_monthly_average_wf:
  assumes "list_all (\<lambda>dd. average_day_ok (snd dd)) r"
  shows "compute_monthly_average p r =
     bind_result (rounded_average p ''Max TemperatureC'' r) (\<lambda>a.
     bind_result (rounded_average p ''Min TemperatureC'' r) (\<lambda>b.
     bind_result (rounded_average p ''Mean Humidity'' r) (\<lambda>c.
       Inr \<lparr>max_temp_avg = a, min_temp_avg = b, mean_humidity_avg = c\<rparr>)))"
proof -
  have "list_all average_day_ok (map snd r)" using assms by (simp add: list_all_iff)
  from average_loop_wf[OF this, of p "Finite 0" 0 "Finite 0" 0 "Finite 0" 0]
  show ?thesis
    by (simp add: compute_monthly_average_def rounded_average_def float_total_def
        bind_result_def)
qed




lemmas sample_arith =
  float_mean_def float_total_def sample_platform_def sample_sums_def sample_quotients_def



subsection \<open>A field without values\<close>

lemma collect_field_no_value:
  assumes "no_value_day f dd" "collect_field p f lbl dd d = Inr d'"
  shows "d' = d"
  using assms
  by (auto simp: collect_field_def no_value_day_def dict_get_def split: option.splits)

lemma compute_day_no_value:
  assumes "compute_day p m dd (a, b, c) = Inr (a', b', c')"
  shows "(no_value_day ''Max TemperatureC'' (snd dd) \<longrightarrow> a' = a) \<and>
         (no_value_day ''Min TemperatureC'' (snd dd) \<longrightarrow> b' = b) \<and>
         (no_value_day ''Max Humidity'' (snd dd) \<longrightarrow> c' = c)"
  using assms collect_field_no_value
  by (fastforce simp: compute_day_def bind_result_def split: sum.splits)

lemma compute_month_no_value:
  assumes "compute_month p m mr (a, b, c) = Inr (a', b', c')"
  shows "(no_value ''Max TemperatureC'' (map snd mr) \<longrightarrow> a' = a) \<and>
         (no_value ''Min TemperatureC'' (map snd mr) \<longrightarrow> b' = b) \<and>
         (no_value ''Max Humidity'' (map snd mr) \<longrightarrow> c' = c)"
  using assms
proof (induction mr arbitrary: a b c)
  case Nil
  then show ?case by simp
next
  case (Cons dd mr)
  from Cons.prems obtain a1 b1 c1 where
    day: "compute_day p m dd (a, b, c) = Inr (a1, b1, c1)"
    and rest: "compute_month p m mr (a1, b1, c1) = Inr (a', b', c')"
    by (auto split: sum.splits)
  show ?case
    using compute_day_no_value[OF day] Cons.IH[OF rest] by (simp add: no_value_def)
qed

lemma compute_year_no_value:
  assumes "compute_year p r (a, b, c) = Inr (a', b', c')"
  shows "(no_value ''Max TemperatureC'' (map snd (labelled_days r)) \<longrightarrow> a' = a) \<and>
         (no_value ''Min TemperatureC'' (map snd (labelled_days r)) \<longrightarrow> b' = b) \<and>
         (no_value ''Max Humidity'' (map snd (labelled_days r)) \<longrightarrow> c' = c)"
  using assms
proof (induction r arbitrary: a b c)
  case Nil
  then show ?case by simp
next
  case (Cons mr r)
  from Cons.prems obtain a1 b1 c1 where
    month: "compute_month p (fst mr) (snd mr) (a, b, c) = Inr (a1, b1, c1)"
    and rest: "compute_year p r (a1, b1, c1) = Inr (a', b', c')"
    by (auto split: sum.splits)
  have split: "no_value f (map snd (labelled_days (mr # r))) =
      (no_value f (map snd (snd mr)) \<and> no_value f (map snd (labelled_days r)))" for f
    by (simp add: labelled_days_Cons no_value_def comp_def)
  show ?case
    using compute_month_no_value[OF month] Cons.IH[OF rest] by (simp add: split)
qed

lemma compute_empty_dict:
  assumes "compute_year p r ([], [], []) = Inr (a, b, c)" "a = [] \<or> b = [] \<or> c = []"
  shows "compute p r = Inl ValueError"
  using assms
  by (auto simp: compute_def bind_result_def py_max_key_def py_min_key_def
      split: sum.splits list.splits)

lemma compute_no_value:
  assumes "f \<in> {''Max TemperatureC'', ''Min TemperatureC'', ''Max Humidity''}"
    and "no_value f (map snd (labelled_days r))"
  shows "isl (compute p r) \<and>
     (\<forall>acc. compute_year p r ([], [], []) = Inr acc \<longrightarrow> compute p r = Inl ValueError)"
proof (cases "compute_year p r ([], [], [])")
  case (Inl e)
  then show ?thesis by (simp add: compute_def bind_result_def)
next
  case (Inr acc)
  obtain a b c where acc: "acc = (a, b, c)" by (cases acc) auto
  have "a = [] \<or> b = [] \<or> c = []"
    using compute_year_no_value[OF Inr[unfolded acc]] assms by auto
  then have "compute p r = Inl ValueError"
    using compute_empty_dict Inr acc by blast
  then show ?thesis by simp
qed

lemma add_field_no_value:
  assumes "no_value_day f dd" "add_field p f dd tc = Inr tc'"
  shows "tc' = tc"
  using assms
  by (auto simp: add_field_def no_value_day_def dict_get_def split: option.splits)

lemma average_day_no_value:
  assumes "average_day p dd (x, y, z) = Inr (x', y', z')"
  shows "(no_value_day ''Max TemperatureC'' dd \<longrightarrow> x' = x) \<and>
         (no_value_day ''Min TemperatureC'' dd \<longrightarrow> y' = y) \<and>
         (no_value_day ''Mean Humidity'' dd \<longrightarrow> z' = z)"
  using assms add_field_no_value
  by (fastforce simp: average_day_def bind_result_def split: sum.splits)

lemma average_loop_no_value:
  assumes "average_loop p days (x, y, z) = Inr (x', y', z')"
  shows "(no_value ''Max TemperatureC'' days \<longrightarrow> x' = x) \<and>
         (no_value ''Min TemperatureC'' days \<longrightarrow> y' = y) \<and>
         (no_value ''Mean Humidity'' days \<longrightarrow> z' = z)"
  using assms
proof (induction days arbitrary: x y z)
  case Nil
  then show ?case by simp
next
  case (Cons dd days)
  from Cons.prems obtain x1 y1 z1 where
    day: "average_day p dd (x, y, z) = Inr (x1, y1, z1)"
    and rest: "average_loop p days (x1, y1, z1) = Inr (x', y', z')"
    by (auto split: sum.splits)
  show ?case
    using average_day_no_value[OF day] Cons.IH[OF rest] by (simp add: no_value_def)
qed

lemma compute_monthly_average_no_value:
  assumes "f \<in> {''Max TemperatureC'', ''Min TemperatureC'', ''Mean Humidity''}"
    and "no_value f (map snd mr)"
  shows "isl (compute_monthly_average p mr)"
proof (cases "average_loop p (map snd mr) ((Finite 0, 0), (Finite 0, 0), (Finite 0, 0))")
  case (Inl e)
  then show ?thesis by (simp add: compute_monthly_average_def bind_result_def)
next
  case (Inr acc)
  obtain x y z where acc: "acc = (x, y, z)" by (cases acc) auto
  have "snd x = 0 \<or> snd y = 0 \<or> snd z = 0"
    using average_loop_no_value[OF Inr[unfolded acc]] assms by auto
  then show ?thesis
    using Inr acc
    by (auto simp: compute_monthly_average_def bind_result_def rounded_mean_def
        split: sum.splits)
qed

lemma no_value_field_values: "no_value f days \<Longrightarrow> field_values f days = []"
  by (induction days)
    (auto simp: no_value_def no_value_day_def field_values_def field_value_def
      split: option.splits)

lemma rounded_average_no_value:
  "no_value f (map snd mr) \<Longrightarrow> rounded_average p f mr = Inl ZeroDivisionError"
  by (simp add: rounded_average_def rounded_mean_def no_value_field_values)

lemma fields_before_eval:
  "fields_before ''Max TemperatureC'' = []"
  "fields_before ''Min TemperatureC'' = [''Max TemperatureC'']"
  "fields_before ''Mean Humidity'' = [''Max TemperatureC'', ''Min TemperatureC'']"
  by (simp_all add: fields_before_def)

lemma compute_monthly_average_zero_division:
  assumes ok: "list_all (\<lambda>dd. average_day_ok (snd dd)) mr"
    and g: "g \<in> {''Max TemperatureC'', ''Min TemperatureC'', ''Mean Humidity''}"
    and nv: "no_value g (map snd mr)"
    and before: "list_all (\<lambda>h. \<not> isl (rounded_average p h mr)) (fields_before g)"
  shows "compute_monthly_average p mr = Inl ZeroDivisionError"
proof -
  note z = rounded_average_no_value[OF nv, of p]
  from g consider "g = ''Max TemperatureC''" | "g = ''Min TemperatureC''" | "g = ''Mean Humidity''"
    by auto
  then show ?thesis
  proof cases
    case 1
    then show ?thesis
      using z by (simp add: compute_monthly_average_wf[OF ok] bind_result_def)
  next
    case 2
    then obtain a where "rounded_average p ''Max TemperatureC'' mr = Inr a"
      using before by (cases "rounded_average p ''Max TemperatureC'' mr")
        (auto simp: fields_before_eval)
    then show ?thesis
      using z 2 by (simp add: compute_monthly_average_wf[OF ok] bind_result_def)
  next
    case 3
    then obtain a b where "rounded_average p ''Max TemperatureC'' mr = Inr a"
      "rounded_average p ''Min TemperatureC'' mr = Inr b"
      using before
      by (cases "rounded_average p ''Max TemperatureC'' mr";
          cases "rounded_average p ''Min TemperatureC'' mr")
        (auto simp: fields_before_eval)
    then show ?thesis
      using z 3 by (simp add: compute_monthly_average_wf[OF ok] bind_result_def)
  qed
qed

text \<open>
  C7, as amended. If \<^verbatim>\<open>Max TemperatureC\<close>, \<^verbatim>\<open>Min TemperatureC\<close> or
  \<^verbatim>\<open>Max Humidity\<close> has no non-empty value on any day of the year, \<open>compute\<close> raises
  instead of returning a summary, and the exception is the \<^verbatim>\<open>ValueError\<close> of
  \<^verbatim>\<open>max\<close> or \<^verbatim>\<open>min\<close> on an empty dict whenever the collecting loop itself raised
  nothing. If \<^verbatim>\<open>Max TemperatureC\<close>, \<^verbatim>\<open>Min TemperatureC\<close> or \<^verbatim>\<open>Mean Humidity\<close>
  has no non-empty value on any day of the month, \<open>compute_monthly_average\<close> raises
  instead of returning a summary; the exception is the \<^verbatim>\<open>ZeroDivisionError\<close> of the
  division by the count 0 when the three fields are each empty or a float on every day and
  \<^verbatim>\<open>round(total / count)\<close> raises nothing for the fields that are averaged before that
  one.
\<close>

theorem empty_range_raises:
  "(f \<in> {''Max TemperatureC'', ''Min TemperatureC'', ''Max Humidity''} \<and>
    no_value f (map snd (labelled_days r)) \<longrightarrow>
      isl (compute p r) \<and>
      (\<forall>acc. compute_year p r ([], [], []) = Inr acc \<longrightarrow> compute p r = Inl ValueError)) \<and>
   (g \<in> {''Max TemperatureC'', ''Min TemperatureC'', ''Mean Humidity''} \<and>
    no_value g (map snd mr) \<longrightarrow>
      isl (compute_monthly_average p mr) \<and>
      (list_all (\<lambda>dd. average_day_ok (snd dd)) mr \<and>
       list_all (\<lambda>h. \<not> isl (rounded_average p h mr)) (fields_before g) \<longrightarrow>
         compute_monthly_average p mr = Inl ZeroDivisionError))"
proof (intro conjI impI)
  assume "f \<in> {''Max TemperatureC'', ''Min TemperatureC'', ''Max Humidity''} \<and>
    no_value f (map snd (labelled_days r))"
  then show "isl (compute p r)"
    and "\<forall>acc. compute_year p r ([], [], []) = Inr acc \<longrightarrow> compute p r = Inl ValueError"
    using compute_no_value[of f r p] by simp_all
next
  assume g: "g \<in> {''Max TemperatureC'', ''Min TemperatureC'', ''Mean Humidity''} \<and>
    no_value g (map snd mr)"
  then show "isl (compute_monthly_average p mr)"
    using compute_monthly_average_no_value[of g mr p] by simp
  assume "list_all (\<lambda>dd. average_day_ok (snd dd)) mr \<and>
    list_all (\<lambda>h. \<not> isl (rounded_average p h mr)) (fields_before g)"
  then show "compute_monthly_average p mr = Inl ZeroDivisionError"
    using g compute_monthly_average_zero_division[of mr g p] by simp
qed

lemma month_without_humidity_values:
  "field_values ''Max TemperatureC'' (map snd month_without_humidity) = [Finite 24, Finite 25]"
  "field_values ''Min TemperatureC'' (map snd month_without_humidity) = [Finite 25, Finite 26]"
  by (simp_all add: field_values_def field_value_def month_without_humidity_def)

theorem empty_range_raises_witness:
  "no_value ''Max Humidity'' (map snd (labelled_days year_without_humidity)) \<and>
   (\<forall>p. compute p year_without_humidity = Inl ValueError) \<and>
   no_value ''Mean Humidity'' (map snd month_without_humidity) \<and>
   rounded_average sample_platform ''Max TemperatureC'' month_without_humidity = Inr 24 \<and>
   rounded_average sample_platform ''Min TemperatureC'' month_without_humidity = Inr 26 \<and>
   compute_monthly_average sample_platform month_without_humidity = Inl ZeroDivisionError"
proof -
  have y: "no_value ''Max Humidity'' (map snd (labelled_days year_without_humidity))"
    by (simp add: no_value_def no_value_day_def labelled_days_def year_without_humidity_def)
  have m: "no_value ''Mean Humidity'' (map snd month_without_humidity)"
    by (simp add: no_value_def no_value_day_def month_without_humidity_def)
  have ok: "list_all (\<lambda>dd. average_day_ok (snd dd)) month_without_humidity"
    by (simp add: month_without_humidity_def average_day_ok_def float_or_empty_def)
  have loop: "\<exists>acc. compute_year p year_without_humidity ([], [], []) = Inr acc" for p
    by (simp add: year_without_humidity_def compute_eval)
  have before:
    "rounded_average sample_platform ''Max TemperatureC'' month_without_humidity = Inr 24"
    "rounded_average sample_platform ''Min TemperatureC'' month_without_humidity = Inr 26"
    by (simp_all add: rounded_average_def rounded_mean_def month_without_humidity_values
        sample_arith round_half_even_def)
  have 1: "compute p year_without_humidity = Inl ValueError" for p
    using empty_range_raises[of "''Max Humidity''" year_without_humidity p
        "''Mean Humidity''" month_without_humidity] y loop[of p]
    by auto
  have 2: "compute_monthly_average sample_platform month_without_humidity =
      Inl ZeroDivisionError"
    using empty_range_raises[of "''Max Humidity''" year_without_humidity sample_platform
        "''Mean Humidity''" month_without_humidity] m ok before
    by (simp add: fields_before_eval)
  show ?thesis using y m before 1 2 by blast
qed

text \<open>
  The month \<open>two_days\<close> has no maximum humidity on any day, and
  \<open>compute_monthly_average\<close> returns its summary: the function does not read that field.
\<close>

theorem monthly_average_ignores_max_humidity:
  "no_value ''Max Humidity'' (map snd two_days) \<and>
   compute_monthly_average sample_platform two_days =
     Inr \<lparr>max_temp_avg = 24, min_temp_avg = 26, mean_humidity_avg = 50\<rparr>"
  by (simp add: no_value_def no_value_day_def two_days_def compute_monthly_average_def
      average_day_def add_field_def dict_get_def bind_result_def rounded_mean_def
      round_half_even_def sample_platform_def sample_sums_def sample_quotients_def)

subsection \<open>The bar charts\<close>

lemma fmt02d_no_space: "CHR '' '' \<notin> set (fmt02d d)"
  using str_int_no_space by (simp add: fmt02d_def)

lemma line_key_prefix: "CHR '' '' \<notin> set k \<Longrightarrow> line_key (k @ CHR '' '' # rest) = k"
  by (induction k) (auto simp: line_key_def)

lemma line_key_lines:
  "line_key (max_line d v) = fmt02d d"
  "line_key (min_line d v) = fmt02d d"
  "line_key (single_line d lo hi) = fmt02d d"
  using line_key_prefix[OF fmt02d_no_space]
  by (simp_all add: max_line_def min_line_def single_line_def)

lemma multiple_bar_loop_wf:
  "list_all has_bars results \<Longrightarrow>
   multiple_bar_loop results = (concat (map bar_lines results), Inr ())"
  by (induction results)
    (auto simp: has_bars_def bar_lines_def dict_get_def split: option.splits)

lemma single_bar_loop_wf:
  "list_all has_bars results \<Longrightarrow>
   single_bar_loop results = (concat (map single_bar_line results), Inr ())"
  by (induction results)
    (auto simp: has_bars_def single_bar_line_def dict_get_def split: option.splits)

lemma bar_lines_keys:
  "list_all has_bars results \<Longrightarrow>
   map line_key (concat (map bar_lines results)) =
     concat (map (\<lambda>dr. [fmt02d (fst dr), fmt02d (fst dr)]) results)"
  by (induction results)
    (auto simp: has_bars_def bar_lines_def line_key_lines split: option.splits)

lemma single_bar_line_keys:
  "list_all has_bars results \<Longrightarrow>
   map line_key (concat (map single_bar_line results)) = map (\<lambda>dr. fmt02d (fst dr)) results"
  by (induction results)
    (auto simp: has_bars_def single_bar_line_def line_key_lines split: option.splits)

lemma generate_multiple_bar_report_wf:
  assumes "strptime p report_date ''%Y/%m'' = Inr d" "list_all has_bars results"
  shows "generate_multiple_bar_report p report_date results =
     ((month_name (date_month d) @ '' '' @ str_int (date_year d)) # concat (map bar_lines results),
      Inr [])"
  using assms
  by (simp add: generate_multiple_bar_report_def bar_header_def bind_result_def
      multiple_bar_loop_wf)

lemma generate_single_bar_report_wf:
  assumes "strptime p report_date ''%Y/%m'' = Inr d" "list_all has_bars results"
  shows "generate_single_bar_report p report_date results =
     ((month_name (date_month d) @ '' '' @ str_int (date_year d)) #
        concat (map single_bar_line results),
      Inr [])"
  using assms
  by (simp add: generate_single_bar_report_def bar_header_def bind_result_def
      single_bar_loop_wf)

text \<open>
  C3, as amended. When the date parses and every day of the summary has its two values,
  both bar charts print, after the header, the lines of the days in the order of the keys
  of the summary dict, which is the order of insertion: two lines per day in the first
  chart, one in the second. Nothing is sorted; the days are ascending when they were
  inserted in ascending order.
\<close>

theorem bar_reports_follow_insertion_order:
  assumes "strptime p report_date ''%Y/%m'' = Inr d" "list_all has_bars results"
  shows "(\<exists>out. generate_multiple_bar_report p report_date results = (out, Inr []) \<and>
            map line_key (tl out) =
              concat (map (\<lambda>dr. [fmt02d (fst dr), fmt02d (fst dr)]) results)) \<and>
         (\<exists>out. generate_single_bar_report p report_date results = (out, Inr []) \<and>
            map line_key (tl out) = map (\<lambda>dr. fmt02d (fst dr)) results)"
  by (simp add: generate_multiple_bar_report_wf[OF assms] generate_single_bar_report_wf[OF assms]
      bar_lines_keys[OF assms(2)] single_bar_line_keys[OF assms(2)])

lemmas render_eval =
  generate_multiple_bar_report_def generate_single_bar_report_def bar_header_def
  bind_result_def dict_get_def max_line_def min_line_def single_line_def bar_def
  fmt02d_def str_int_def str_nat.simps digit_char_def RED_def BLUE_def RESET_def
  line_key_def

theorem bar_reports_follow_insertion_order_witness:
  "strptime july_platform ''2011/7'' ''%Y/%m'' =
     Inr \<lparr>date_year = 2011, date_month = Jul, date_day = 1\<rparr> \<and>
   list_all has_bars descending_summary \<and>
   (\<exists>out. generate_multiple_bar_report july_platform ''2011/7'' descending_summary = (out, Inr []) \<and>
          map line_key (tl out) = [''02'', ''02'', ''01'', ''01'']) \<and>
   (\<exists>out. generate_single_bar_report july_platform ''2011/7'' descending_summary = (out, Inr []) \<and>
          map line_key (tl out) = [''02'', ''01''])"
proof -
  have d: "strptime july_platform ''2011/7'' ''%Y/%m'' =
     Inr \<lparr>date_year = 2011, date_month = Jul, date_day = 1\<rparr>"
    by (simp add: july_platform_def)
  have b: "list_all has_bars descending_summary"
    by (simp add: has_bars_def descending_summary_def)
  have k: "concat (map (\<lambda>dr. [fmt02d (fst dr), fmt02d (fst dr)]) descending_summary) =
      [''02'', ''02'', ''01'', ''01'']"
    "map (\<lambda>dr. fmt02d (fst dr)) descending_summary = [''02'', ''01'']"
    by (simp_all add: descending_summary_def render_eval)
  show ?thesis
    using bar_reports_follow_insertion_order[OF d b] d b unfolding k by simp
qed

text \<open>
  The summary \<open>descending_summary\<close> has the day 2 before the day 1, and both charts print
  the lines of the day 2 first.
\<close>

theorem bar_reports_do_not_sort:
  "map fst descending_summary = [2, 1] \<and>
   map line_key (tl (fst (generate_multiple_bar_report july_platform ''2011/7'' descending_summary)))
     = [''02'', ''02'', ''01'', ''01''] \<and>
   map line_key (tl (fst (generate_single_bar_report july_platform ''2011/7'' descending_summary)))
     = [''02'', ''01'']"
  by (simp add: descending_summary_def july_platform_def render_eval)

subsection \<open>The runs of marker characters\<close>

lemma plus_not_digit: "CHR ''+'' \<notin> set (str_nat n)"
proof -
  have "\<not> is_digit CHR ''+''" by (simp add: is_digit_def)
  then show ?thesis using str_nat_digits by blast
qed

lemma plus_not_in_str_int: "CHR ''+'' \<notin> set (str_int i)"
  using plus_not_digit by (simp add: str_int_def)

lemma plus_not_in_fmt02d: "CHR ''+'' \<notin> set (fmt02d i)"
  using plus_not_in_str_int by (simp add: fmt02d_def)

lemma plus_run_max_line: "plus_run (max_line d v) (nat v)"
  unfolding plus_run_def
  by (rule exI[of _ "fmt02d d @ '' '' @ RED"], rule exI[of _ "'' '' @ RESET @ str_int v @ ''C''"])
    (simp add: max_line_def bar_def RED_def RESET_def plus_not_in_fmt02d plus_not_in_str_int)

lemma plus_run_min_line: "plus_run (min_line d v) (nat v)"
  unfolding plus_run_def
  by (rule exI[of _ "fmt02d d @ '' '' @ BLUE"], rule exI[of _ "'' '' @ RESET @ str_int v @ ''C''"])
    (simp add: min_line_def bar_def BLUE_def RESET_def plus_not_in_fmt02d plus_not_in_str_int)

lemma bar_lines_nth:
  assumes "list_all has_bars results" "i < length results"
    "map_of (snd (results ! i)) ''max_temp'' = Some hi"
    "map_of (snd (results ! i)) ''min_temp'' = Some lo"
  shows "concat (map bar_lines results) ! (2 * i) = max_line (fst (results ! i)) hi \<and>
         concat (map bar_lines results) ! (2 * i + 1) = min_line (fst (results ! i)) lo"
  using assms
proof (induction results arbitrary: i)
  case Nil
  then show ?case by simp
next
  case (Cons dr results)
  from Cons.prems(1) obtain a b where
    ab: "bar_lines dr = [a, b]"
    by (auto simp: has_bars_def bar_lines_def split: option.splits)
  show ?case
  proof (cases i)
    case 0
    then show ?thesis using Cons.prems by (simp add: bar_lines_def)
  next
    case (Suc j)
    then have "concat (map bar_lines results) ! (2 * j) = max_line (fst (results ! j)) hi \<and>
         concat (map bar_lines results) ! (2 * j + 1) = min_line (fst (results ! j)) lo"
      using Cons.prems by (intro Cons.IH) auto
    then show ?thesis using Suc ab by simp
  qed
qed

lemma bar_lines_length:
  "list_all has_bars results \<Longrightarrow> length (concat (map bar_lines results)) = 2 * length results"
  by (induction results) (auto simp: has_bars_def bar_lines_def split: option.splits)

text \<open>
  C4, as amended. When the date parses and every day of the summary has its two values,
  the chart with two bars per day returns the empty dict after printing the header and two
  lines per day: the first holds one run of marker characters as long as the maximum of
  the day, the second one as long as its minimum, where a negative value gives the empty
  run (\<open>nat v\<close> is \<open>v\<close> when \<open>v\<close> is not negative, and \<open>0\<close> otherwise).
\<close>

theorem multiple_bar_report_runs:
  assumes "strptime p report_date ''%Y/%m'' = Inr d" "list_all has_bars results"
  shows "\<exists>out. generate_multiple_bar_report p report_date results = (out, Inr []) \<and>
     length out = 1 + 2 * length results \<and>
     (\<forall>i hi lo. i < length results \<and>
         map_of (snd (results ! i)) ''max_temp'' = Some hi \<and>
         map_of (snd (results ! i)) ''min_temp'' = Some lo \<longrightarrow>
         plus_run (out ! (1 + 2 * i)) (nat hi) \<and> plus_run (out ! (2 + 2 * i)) (nat lo))"
proof -
  let ?h = "month_name (date_month d) @ '' '' @ str_int (date_year d)"
  let ?ls = "concat (map bar_lines results)"
  have run: "plus_run ((?h # ?ls) ! (1 + 2 * i)) (nat hi) \<and>
             plus_run ((?h # ?ls) ! (2 + 2 * i)) (nat lo)"
    if "i < length results" "map_of (snd (results ! i)) ''max_temp'' = Some hi"
      "map_of (snd (results ! i)) ''min_temp'' = Some lo" for i hi lo
    using bar_lines_nth[OF assms(2) that] plus_run_max_line plus_run_min_line by simp
  show ?thesis
    unfolding generate_multiple_bar_report_wf[OF assms]
    using run bar_lines_length[OF assms(2)] by auto
qed

theorem multiple_bar_report_runs_witness:
  "strptime july_platform ''2011/7'' ''%Y/%m'' =
     Inr \<lparr>date_year = 2011, date_month = Jul, date_day = 1\<rparr> \<and>
   list_all has_bars descending_summary \<and>
   (\<exists>out. generate_multiple_bar_report july_platform ''2011/7'' descending_summary = (out, Inr []) \<and>
          length out = 5 \<and> plus_run (out ! 1) 5 \<and> plus_run (out ! 2) 3 \<and>
          plus_run (out ! 3) 4 \<and> plus_run (out ! 4) 0)"
proof -
  have d: "strptime july_platform ''2011/7'' ''%Y/%m'' =
     Inr \<lparr>date_year = 2011, date_month = Jul, date_day = 1\<rparr>"
    by (simp add: july_platform_def)
  have b: "list_all has_bars descending_summary"
    by (simp add: has_bars_def descending_summary_def)
  from multiple_bar_report_runs[OF d b] obtain out where
    out: "generate_multiple_bar_report july_platform ''2011/7'' descending_summary = (out, Inr [])"
    and len: "length out = 1 + 2 * length descending_summary"
    and runs: "\<forall>i hi lo. i < length descending_summary \<and>
         map_of (snd (descending_summary ! i)) ''max_temp'' = Some hi \<and>
         map_of (snd (descending_summary ! i)) ''min_temp'' = Some lo \<longrightarrow>
         plus_run (out ! (1 + 2 * i)) (nat hi) \<and> plus_run (out ! (2 + 2 * i)) (nat lo)"
    by blast
  have 0: "plus_run (out ! 1) 5 \<and> plus_run (out ! 2) 3"
    using runs[rule_format, of 0 5 3] by (simp add: descending_summary_def)
  have 1: "plus_run (out ! 3) 4 \<and> plus_run (out ! 4) 0"
    using runs[rule_format, of 1 4 "- 3"] by (simp add: descending_summary_def eval_nat_numeral)
  have "length out = 5" using len by (simp add: descending_summary_def)
  then show ?thesis using d b out 0 1 by blast
qed

text \<open>
  The day 1 of \<open>descending_summary\<close> has the minimum \<open>- 3\<close>; its second line holds no
  marker character at all.
\<close>

theorem negative_value_has_empty_bar:
  "map_of (snd (descending_summary ! 1)) ''min_temp'' = Some (- 3) \<and>
   fst (generate_multiple_bar_report july_platform ''2011/7'' descending_summary) ! 4 =
     ''01 '' @ BLUE @ '' '' @ RESET @ ''-3C'' \<and>
   count_list (fst (generate_multiple_bar_report july_platform ''2011/7'' descending_summary) ! 4)
     CHR ''+'' = 0"
  by (simp add: descending_summary_def july_platform_def render_eval)

subsection \<open>\<^verbatim>\<open>_get_daily_readings\<close>\<close>

lemma daily_loop_parses:
  assumes "distinct (map fst daily_data)" "set kvs \<subseteq> set daily_data"
    "list_all (field_parses p) kvs"
  shows "daily_loop p daily_data (map fst kvs) acc = Inr (dict_extend acc (map (typed_field p) kvs))"
  using assms
proof (induction kvs arbitrary: acc)
  case Nil
  then show ?case by simp
next
  case (Cons kv kvs)
  have "(fst kv, snd kv) \<in> set daily_data" using Cons.prems(2) by simp
  then have "map_of daily_data (fst kv) = Some (snd kv)"
    using Cons.prems(1) by (rule map_of_is_SomeI[rotated])
  then have look: "dict_get daily_data (fst kv) = Inr (snd kv)"
    by (simp add: dict_get_def)
  have rest: "daily_loop p daily_data (map fst kvs) acc' =
      Inr (dict_extend acc' (map (typed_field p) kvs))" for acc'
    using Cons.prems by (intro Cons.IH) auto
  show ?case
  proof (cases "is_converted kv")
    case True
    then obtain x where x: "py_float p (snd kv) = Inr x"
      using Cons.prems(3) by (cases "py_float p (snd kv)") (auto simp: field_parses_def)
    then have t: "typed_field p kv = (fst kv, Num x)" using True by (simp add: typed_field_def)
    show ?thesis using True x look rest
      by (simp add: is_converted_def t dict_extend_def)
  next
    case False
    then have t: "typed_field p kv = kv" by (simp add: typed_field_def)
    show ?thesis using False look rest
      by (auto simp: is_converted_def t dict_extend_def)
  qed
qed

lemma daily_loop_fails:
  assumes "distinct (map fst daily_data)" "set kvs \<subseteq> set daily_data"
    "\<not> list_all (field_parses p) kvs"
  shows "isl (daily_loop p daily_data (map fst kvs) acc)"
  using assms
proof (induction kvs arbitrary: acc)
  case Nil
  then show ?case by simp
next
  case (Cons kv kvs)
  have "(fst kv, snd kv) \<in> set daily_data" using Cons.prems(2) by simp
  then have "map_of daily_data (fst kv) = Some (snd kv)"
    using Cons.prems(1) by (rule map_of_is_SomeI[rotated])
  then have look: "dict_get daily_data (fst kv) = Inr (snd kv)"
    by (simp add: dict_get_def)
  show ?case
  proof (cases "field_parses p kv")
    case True
    then have "\<not> list_all (field_parses p) kvs" using Cons.prems(3) by simp
    then have "isl (daily_loop p daily_data (map fst kvs) acc')" for acc'
      using Cons.prems by (intro Cons.IH) auto
    then show ?thesis using look by (auto split: sum.splits)
  next
    case False
    then show ?thesis using look
      by (auto simp: field_parses_def is_converted_def split: sum.splits)
  qed
qed

lemma typed_field_key: "fst (typed_field p kv) = fst kv"
  by (auto simp: typed_field_def split: sum.splits)

lemma get_daily_readings_parses:
  assumes "distinct (map fst daily_data)" "list_all (field_parses p) daily_data"
  shows "get_daily_readings p daily_data = Inr (map (typed_field p) daily_data)"
proof -
  have "distinct (map fst ([] @ map (typed_field p) daily_data))"
    using assms(1) by (simp add: comp_def typed_field_key)
  then have "dict_extend [] (map (typed_field p) daily_data) = map (typed_field p) daily_data"
    using dict_extend_distinct[of "[]" "map (typed_field p) daily_data"] by simp
  then show ?thesis
    using daily_loop_parses[OF assms(1) subset_refl assms(2), of "[]"]
    by (simp add: get_daily_readings_def)
qed

lemma map_of_typed:
  assumes "distinct (map fst daily_data)" "kv \<in> set daily_data"
  shows "map_of (map (typed_field p) daily_data) (fst kv) = Some (snd (typed_field p kv))"
proof -
  have "distinct (map fst (map (typed_field p) daily_data))"
    using assms(1) by (simp add: comp_def typed_field_key)
  moreover have "(fst kv, snd (typed_field p kv)) \<in> set (map (typed_field p) daily_data)"
    using assms(2) typed_field_key[of p kv] by (metis image_eqI list.set_map prod.collapse)
  ultimately show ?thesis by (rule map_of_is_SomeI)
qed

text \<open>
  C5. For a raw row (a dict from field names to strings) the reading that
  \<open>_get_daily_readings\<close> returns has the keys of the row in the same order; a field named
  \<^verbatim>\<open>PKT\<close> or \<^verbatim>\<open>Events\<close>, or one whose text is empty, keeps its text, and every other
  field holds the float that \<^verbatim>\<open>float\<close> makes of its text. The reading is returned when
  \<^verbatim>\<open>float\<close> accepts the text of every field that is converted; otherwise the call
  raises. A numeric field such as \<^verbatim>\<open>Max TemperatureC\<close> is therefore a float or the empty
  string in every reading returned.
\<close>

theorem get_daily_readings_types:
  assumes "distinct (map fst daily_data)" "raw_row daily_data"
  shows "(list_all (field_parses p) daily_data \<longrightarrow>
           (\<exists>d. get_daily_readings p daily_data = Inr d \<and> map fst d = map fst daily_data \<and>
              (\<forall>h s. (Some h, Str s) \<in> set daily_data \<longrightarrow>
                 (if h \<in> {''PKT'', ''Events''} \<or> s = []
                  then map_of d (Some h) = Some (Str s)
                  else \<exists>x. float_of_str p s = Inr x \<and> map_of d (Some h) = Some (Num x))) \<and>
              (\<forall>v. map_of d (Some ''Max TemperatureC'') = Some v \<longrightarrow>
                 (\<exists>x. v = Num x) \<or> v = Str []))) \<and>
         (\<not> list_all (field_parses p) daily_data \<longrightarrow> isl (get_daily_readings p daily_data))"
proof (intro conjI impI)
  assume parses: "list_all (field_parses p) daily_data"
  let ?d = "map (typed_field p) daily_data"
  have res: "get_daily_readings p daily_data = Inr ?d"
    using get_daily_readings_parses[OF assms(1) parses] .
  have keys: "map fst ?d = map fst daily_data" by (simp add: comp_def typed_field_key)
  have each: "if h \<in> {''PKT'', ''Events''} \<or> s = []
      then map_of ?d (Some h) = Some (Str s)
      else \<exists>x. float_of_str p s = Inr x \<and> map_of ?d (Some h) = Some (Num x)"
    if mem: "(Some h, Str s) \<in> set daily_data" for h s
  proof (cases "h \<in> {''PKT'', ''Events''} \<or> s = []")
    case True
    then have "typed_field p (Some h, Str s) = (Some h, Str s)"
      by (auto simp: typed_field_def is_converted_def)
    then show ?thesis using map_of_typed[OF assms(1) mem, of p] True by simp
  next
    case False
    then have conv: "is_converted (Some h, Str s)" by (auto simp: is_converted_def)
    have "field_parses p (Some h, Str s)" using parses mem by (simp add: list_all_iff)
    then obtain x where x: "float_of_str p s = Inr x"
      using conv by (cases "float_of_str p s") (auto simp: field_parses_def)
    then have "typed_field p (Some h, Str s) = (Some h, Num x)"
      using conv by (simp add: typed_field_def)
    then show ?thesis using map_of_typed[OF assms(1) mem, of p] False x by simp
  qed
  have numeric: "(\<exists>x. v = Num x) \<or> v = Str []"
    if v: "map_of ?d (Some ''Max TemperatureC'') = Some v" for v
  proof -
    from v have "(Some ''Max TemperatureC'', v) \<in> set ?d" by (rule map_of_SomeD)
    then obtain kv where kv: "kv \<in> set daily_data"
        "typed_field p kv = (Some ''Max TemperatureC'', v)" by auto
    then have k: "fst kv = Some ''Max TemperatureC''" using typed_field_key[of p kv] by simp
    have "is_text kv" using assms(2) kv(1) by (simp add: raw_row_def list_all_iff)
    then obtain s where s: "snd kv = Str s"
      by (auto simp: is_text_def split: option.splits pyval.splits)
    have mem: "(Some ''Max TemperatureC'', Str s) \<in> set daily_data"
      using kv(1) k s by (metis prod.collapse)
    have "map_of ?d (Some ''Max TemperatureC'') = Some (snd (typed_field p kv))"
      using map_of_typed[OF assms(1) kv(1), of p] k by simp
    then show ?thesis using each[OF mem] v by (auto split: if_splits)
  qed
  show "\<exists>d. get_daily_readings p daily_data = Inr d \<and> map fst d = map fst daily_data \<and>
      (\<forall>h s. (Some h, Str s) \<in> set daily_data \<longrightarrow>
         (if h \<in> {''PKT'', ''Events''} \<or> s = []
          then map_of d (Some h) = Some (Str s)
          else \<exists>x. float_of_str p s = Inr x \<and> map_of d (Some h) = Some (Num x))) \<and>
      (\<forall>v. map_of d (Some ''Max TemperatureC'') = Some v \<longrightarrow> (\<exists>x. v = Num x) \<or> v = Str [])"
    using res keys each numeric by blast
next
  assume "\<not> list_all (field_parses p) daily_data"
  then show "isl (get_daily_readings p daily_data)"
    using daily_loop_fails[OF assms(1) subset_refl, of p "[]"]
    by (simp add: get_daily_readings_def)
qed

theorem get_daily_readings_types_witness:
  "distinct (map fst first_july_row) \<and> raw_row first_july_row \<and>
   list_all (field_parses sample_platform) first_july_row \<and>
   get_daily_readings sample_platform first_july_row =
     Inr [(Some ''PKT'', Str ''2011-7-1''), (Some ''Max TemperatureC'', Num (Finite 30)),
          (Some ''Min TemperatureC'', Str []), (Some ''Events'', Str ''Rain'')] \<and>
   isl (get_daily_readings sample_platform [(Some ''Max TemperatureC'', Str ''hot'')])"
proof -
  have d: "distinct (map fst first_july_row)" by (simp add: first_july_row_def)
  have r: "raw_row first_july_row" by (simp add: first_july_row_def raw_row_def is_text_def)
  have f: "list_all (field_parses sample_platform) first_july_row"
    by (simp add: first_july_row_def field_parses_def is_converted_def sample_platform_def
        sample_floats_def)
  have v: "get_daily_readings sample_platform first_july_row =
     Inr [(Some ''PKT'', Str ''2011-7-1''), (Some ''Max TemperatureC'', Num (Finite 30)),
          (Some ''Min TemperatureC'', Str []), (Some ''Events'', Str ''Rain'')]"
    by (simp add: get_daily_readings_def first_july_row_def dict_get_def sample_platform_def
        sample_floats_def)
  have "\<not> list_all (field_parses sample_platform) [(Some ''Max TemperatureC'', Str ''hot'')]"
    by (simp add: field_parses_def is_converted_def sample_platform_def sample_floats_def)
  then have bad: "isl (get_daily_readings sample_platform [(Some ''Max TemperatureC'', Str ''hot'')])"
    using get_daily_readings_types[of "[(Some ''Max TemperatureC'', Str ''hot'')]" sample_platform]
    by (simp add: raw_row_def is_text_def)
  from get_daily_readings_types[OF d r, of sample_platform] f
  obtain d' where "get_daily_readings sample_platform first_july_row = Inr d'" by blast
  then show ?thesis using d r f v bad by simp
qed

subsection \<open>\<^verbatim>\<open>get_yearly_readings\<close>\<close>

lemma yearly_loop_append:
  "yearly_loop p (before @ rest) acc =
     (case yearly_loop p before acc of Inl e \<Rightarrow> Inl e | Inr acc' \<Rightarrow> yearly_loop p rest acc')"
  by (induction before arbitrary: acc) (auto split: sum.splits)

lemma yearly_loop_no_rows:
  "read_csv p file_name = Inr [] \<Longrightarrow> yearly_loop p (file_name # file_list) acc = Inl IndexError"
  by (simp add: bind_result_def)

lemma yearly_loop_rows:
  "yearly_loop p file_list acc = Inr y \<Longrightarrow>
   list_all (\<lambda>f. \<exists>row rows. read_csv p f = Inr (row # rows)) file_list"
proof (induction file_list arbitrary: acc)
  case Nil
  then show ?case by simp
next
  case (Cons f file_list)
  from Cons.prems obtain acc' where
    step: "bind_result (read_csv p f) (\<lambda>monthly_data.
           bind_result (case monthly_data of [] \<Rightarrow> Inl IndexError | row # _ \<Rightarrow> Inr row)
             (\<lambda>row.
           bind_result (dict_get row (Some ''PKT'')) (\<lambda>pkt.
           bind_result (strptime_val p pkt ''%Y-%m-%d'') (\<lambda>d.
           bind_result (get_monthly_readings_dependent p monthly_data) (\<lambda>monthly.
             Inr (dict_set acc (month_name (date_month d)) monthly)))))) = Inr acc'"
    and rest: "yearly_loop p file_list acc' = Inr y"
    by (auto split: sum.splits)
  from step have "\<exists>row rows. read_csv p f = Inr (row # rows)"
    by (auto simp: bind_result_def split: sum.splits list.splits)
  then show ?case using Cons.IH[OF rest] by simp
qed

lemma read_csv_header_only:
  "read_lines p file_name = Inr [header] \<Longrightarrow> read_csv p file_name = Inr []"
  by (simp add: read_csv_def bind_result_def DictReader_def)

text \<open>
  C10. When \<open>get_yearly_readings\<close> returns readings, every file that matched the year has
  at least one parsed row. A matching file that holds its header line and nothing else
  has no parsed row, and when the files before it were read without an exception, the
  call raises the \<^verbatim>\<open>IndexError\<close> of \<^verbatim>\<open>monthly_data[0]\<close> and returns no readings.
\<close>

theorem get_yearly_readings_needs_a_row:
  assumes "get_files p files_dir report_date = Inr file_list"
  shows "(\<forall>y. get_yearly_readings p files_dir report_date = Inr y \<longrightarrow>
            list_all (\<lambda>f. \<exists>row rows. read_csv p f = Inr (row # rows)) file_list) \<and>
         (\<forall>before f after acc header.
            file_list = before @ f # after \<and> yearly_loop p before [] = Inr acc \<and>
            read_lines p f = Inr [header] \<longrightarrow>
            read_csv p f = Inr [] \<and>
            get_yearly_readings p files_dir report_date = Inl IndexError)"
proof (intro conjI allI impI)
  fix y
  assume "get_yearly_readings p files_dir report_date = Inr y"
  then have "yearly_loop p file_list [] = Inr y"
    using assms by (simp add: get_yearly_readings_def bind_result_def)
  then show "list_all (\<lambda>f. \<exists>row rows. read_csv p f = Inr (row # rows)) file_list"
    by (rule yearly_loop_rows)
next
  fix before f after acc header
  assume a: "file_list = before @ f # after \<and> yearly_loop p before [] = Inr acc \<and>
            read_lines p f = Inr [header]"
  then show none: "read_csv p f = Inr []" using read_csv_header_only by blast
  have "yearly_loop p (before @ f # after) [] = yearly_loop p (f # after) acc"
    using a by (simp add: yearly_loop_append)
  also have "\<dots> = Inl IndexError" using none by (rule yearly_loop_no_rows)
  finally show "get_yearly_readings p files_dir report_date = Inl IndexError"
    using assms a by (simp add: get_yearly_readings_def bind_result_def)
qed


lemmas reader_eval =
  read_csv_def DictReader_def dict_row_def dict_extend_def strip_def is_space_def
  get_files_def endswith_def bind_result_def dict_get_def get_daily_readings_def
  strptime_val_def get_monthly_readings_dependent_def

lemma sample_files:
  "get_files sample_platform ''weatherfiles'' ''2011'' =
     Inr [''weatherfiles/Murree_weather_2011_Jul.txt'', ''weatherfiles/Murree_weather_2011_Aug.txt'']"
  by (simp add: sample_platform_def reader_eval)

lemma sample_july_rows:
  "read_csv sample_platform ''weatherfiles/Murree_weather_2011_Jul.txt'' =
     Inr [[(Some ''PKT'', Str ''2011-7-1''), (Some ''Max TemperatureC'', Str ''30''),
           (Some ''Min TemperatureC'', Str ''20''), (Some ''Max Humidity'', Str ''80''),
           (Some ''Mean Humidity'', Str ''60''), (Some ''Events'', Str ''Rain'')],
          [(Some ''PKT'', Str ''2011-7-2''), (Some ''Max TemperatureC'', Str ''33''),
           (Some ''Min TemperatureC'', Str []), (Some ''Max Humidity'', Str ''85''),
           (Some ''Mean Humidity'', Str ''65''), (Some ''Events'', Str [])]]"
  by (simp add: sample_platform_def july_lines_def reader_eval)

lemma sample_july_loop:
  "monthly_loop sample_platform
     [[(Some ''PKT'', Str ''2011-7-1''), (Some ''Max TemperatureC'', Str ''30''),
       (Some ''Min TemperatureC'', Str ''20''), (Some ''Max Humidity'', Str ''80''),
       (Some ''Mean Humidity'', Str ''60''), (Some ''Events'', Str ''Rain'')],
      [(Some ''PKT'', Str ''2011-7-2''), (Some ''Max TemperatureC'', Str ''33''),
       (Some ''Min TemperatureC'', Str []), (Some ''Max Humidity'', Str ''85''),
       (Some ''Mean Humidity'', Str ''65''), (Some ''Events'', Str [])]] [] =
   Inr july_readings"
  by (simp add: sample_platform_def sample_floats_def sample_dates_def july_readings_def
      reader_eval)

lemma sample_july_dependent:
  "get_monthly_readings_dependent sample_platform
     [[(Some ''PKT'', Str ''2011-7-1''), (Some ''Max TemperatureC'', Str ''30''),
       (Some ''Min TemperatureC'', Str ''20''), (Some ''Max Humidity'', Str ''80''),
       (Some ''Mean Humidity'', Str ''60''), (Some ''Events'', Str ''Rain'')],
      [(Some ''PKT'', Str ''2011-7-2''), (Some ''Max TemperatureC'', Str ''33''),
       (Some ''Min TemperatureC'', Str []), (Some ''Max Humidity'', Str ''85''),
       (Some ''Mean Humidity'', Str ''65''), (Some ''Events'', Str [])]] =
   Inr july_readings"
  by (simp only: get_monthly_readings_dependent_def sample_july_loop)

lemma sample_strptime:
  "strptime sample_platform ''2011-7-1'' ''%Y-%m-%d'' =
     Inr \<lparr>date_year = 2011, date_month = Jul, date_day = 1\<rparr>"
  "strptime sample_platform ''2011/7'' ''%Y/%m'' =
     Inr \<lparr>date_year = 2011, date_month = Jul, date_day = 1\<rparr>"
  "strptime sample_platform ''2011/9'' ''%Y/%m'' =
     Inr \<lparr>date_year = 2011, date_month = Sep, date_day = 1\<rparr>"
  by (simp_all add: sample_platform_def sample_dates_def)

lemma sample_year_before:
  "yearly_loop sample_platform [''weatherfiles/Murree_weather_2011_Jul.txt''] [] =
     Inr [(''July'', july_readings)]"
  by (simp add: sample_july_rows sample_july_dependent sample_strptime bind_result_def
      dict_get_def strptime_val_def)

theorem get_yearly_readings_needs_a_row_witness:
  "get_files sample_platform ''weatherfiles'' ''2011'' =
     Inr [''weatherfiles/Murree_weather_2011_Jul.txt'', ''weatherfiles/Murree_weather_2011_Aug.txt''] \<and>
   yearly_loop sample_platform [''weatherfiles/Murree_weather_2011_Jul.txt''] [] =
     Inr [(''July'', july_readings)] \<and>
   read_lines sample_platform ''weatherfiles/Murree_weather_2011_Aug.txt'' = Inr august_lines \<and>
   length august_lines = 1 \<and>
   read_csv sample_platform ''weatherfiles/Murree_weather_2011_Aug.txt'' = Inr [] \<and>
   get_yearly_readings sample_platform ''weatherfiles'' ''2011'' = Inl IndexError"
proof -
  have aug: "read_lines sample_platform ''weatherfiles/Murree_weather_2011_Aug.txt'' =
      Inr [hd august_lines]"
    by (simp add: sample_platform_def august_lines_def)
  have "read_csv sample_platform ''weatherfiles/Murree_weather_2011_Aug.txt'' = Inr [] \<and>
        get_yearly_readings sample_platform ''weatherfiles'' ''2011'' = Inl IndexError"
    using get_yearly_readings_needs_a_row[OF sample_files, THEN conjunct2, rule_format,
        of "[''weatherfiles/Murree_weather_2011_Jul.txt'']"
           "''weatherfiles/Murree_weather_2011_Aug.txt''" "[]"
           "[(''July'', july_readings)]" "hd august_lines"]
      sample_year_before aug
    by simp
  then show ?thesis
    using sample_files sample_year_before
    by (simp add: sample_platform_def august_lines_def)
qed


subsection \<open>\<^verbatim>\<open>process_args\<close>\<close>

lemma process_loop_success:
  assumes "process_loop p dates n path s y acc = (out, Inr reports)"
  shows "\<exists>rs. reports = acc @ rs \<and> length rs = length dates \<and>
     (\<forall>i<length dates. snd (process_date p (dates ! i) (n + int i) path s y) = Inr (rs ! i))"
  using assms
proof (induction dates arbitrary: n acc out)
  case Nil
  then show ?case by simp
next
  case (Cons d dates)
  obtain o1 r1 where d: "process_date p d n path s y = (o1, r1)"
    by (cases "process_date p d n path s y") auto
  show ?case
  proof (cases r1)
    case (Inl e)
    then show ?thesis using Cons.prems d by simp
  next
    case (Inr report)
    obtain o2 r2 where rest: "process_loop p dates (n + 1) path s y (acc @ [report]) = (o2, r2)"
      by (cases "process_loop p dates (n + 1) path s y (acc @ [report])") auto
    then have "r2 = Inr reports" using Cons.prems d Inr by simp
    then obtain rs where rs: "reports = (acc @ [report]) @ rs" "length rs = length dates"
        "\<forall>i<length dates. snd (process_date p (dates ! i) (n + 1 + int i) path s y) = Inr (rs ! i)"
      using Cons.IH[of "n + 1" "acc @ [report]" o2] rest by blast
    have "snd (process_date p ((d # dates) ! i) (n + int i) path s y) = Inr ((report # rs) ! i)"
      if "i < length (d # dates)" for i
    proof (cases i)
      case 0
      then show ?thesis using d Inr by simp
    next
      case (Suc j)
      then have "j < length dates" using that by simp
      then have "snd (process_date p (dates ! j) (n + 1 + int j) path s y) = Inr (rs ! j)"
        using rs(3) by blast
      moreover have "n + 1 + int j = n + int (Suc j)" by simp
      ultimately show ?thesis using Suc by simp
    qed
    then show ?thesis using rs(1,2) by (intro exI[of _ "report # rs"]) simp
  qed
qed

lemma process_loop_total:
  assumes "\<forall>i<length dates. \<not> isl (snd (process_date p (dates ! i) (n + int i) path s y))"
  shows "\<not> isl (snd (process_loop p dates n path s y acc))"
  using assms
proof (induction dates arbitrary: n acc)
  case Nil
  then show ?case by simp
next
  case (Cons d dates)
  obtain o1 r1 where d: "process_date p d n path s y = (o1, r1)"
    by (cases "process_date p d n path s y") auto
  have "\<not> isl r1" using Cons.prems[rule_format, of 0] d by simp
  then obtain report where r1: "r1 = Inr report" by (cases r1) auto
  have "\<not> isl (snd (process_date p (dates ! i) (n + 1 + int i) path s y))"
    if "i < length dates" for i
  proof -
    have "n + 1 + int i = n + int (Suc i)" by simp
    then show ?thesis using Cons.prems[rule_format, of "Suc i"] that by (simp add: add.assoc)
  qed
  then have "\<not> isl (snd (process_loop p dates (n + 1) path s y (acc @ [report])))"
    by (intro Cons.IH) blast
  then show ?case using d r1 by (simp add: case_prod_beta)
qed

lemma process_loop_stops:
  assumes "snd (process_date p d (n + int (length before)) path s y) = Inl e"
  shows "process_loop p (before @ d # after) n path s y acc =
         process_loop p (before @ [d]) n path s y acc"
  using assms
proof (induction before arbitrary: n acc)
  case Nil
  then show ?case by (cases "process_date p d n path s y") simp
next
  case (Cons b before)
  obtain o1 r1 where b: "process_date p b n path s y = (o1, r1)"
    by (cases "process_date p b n path s y") auto
  show ?case
  proof (cases r1)
    case (Inl e')
    then show ?thesis using b by simp
  next
    case (Inr report)
    have "n + 1 + int (length before) = n + int (length (b # before))" by simp
    then have "snd (process_date p d (n + 1 + int (length before)) path s y) = Inl e"
      using Cons.prems by (simp add: add.assoc)
    then have "process_loop p (before @ d # after) (n + 1) path s y (acc @ [report]) =
        process_loop p (before @ [d]) (n + 1) path s y (acc @ [report])"
      by (rule Cons.IH)
    then show ?thesis using b Inr by simp
  qed
qed

lemma process_loop_error:
  assumes "\<forall>i<length before. \<not> isl (snd (process_date p (before ! i) (n + int i) path s y))"
    and "snd (process_date p d (n + int (length before)) path s y) = Inl e"
  shows "snd (process_loop p (before @ d # after) n path s y acc) = Inl e"
  using assms
proof (induction before arbitrary: n acc)
  case Nil
  then show ?case by (cases "process_date p d n path s y") simp
next
  case (Cons b before)
  obtain o1 r1 where b: "process_date p b n path s y = (o1, r1)"
    by (cases "process_date p b n path s y") auto
  have "\<not> isl r1" using Cons.prems(1)[rule_format, of 0] b by simp
  then obtain report where r1: "r1 = Inr report" by (cases r1) auto
  have ok: "\<not> isl (snd (process_date p (before ! i) (n + 1 + int i) path s y))"
    if "i < length before" for i
  proof -
    have "n + 1 + int i = n + int (Suc i)" by simp
    then show ?thesis using Cons.prems(1)[rule_format, of "Suc i"] that
      by (simp add: add.assoc)
  qed
  have "n + 1 + int (length before) = n + int (length (b # before))" by simp
  then have "snd (process_date p d (n + 1 + int (length before)) path s y) = Inl e"
    using Cons.prems(2) by (simp add: add.assoc)
  then have "snd (process_loop p (before @ d # after) (n + 1) path s y (acc @ [report])) = Inl e"
    using ok by (intro Cons.IH) blast
  then show ?case using b r1 by (simp add: case_prod_beta)
qed

text \<open>
  C2. When \<open>process_args\<close> returns, the list it returns has one report per date, in the
  order of the dates: the report at each position is the one that the loop body makes of
  the date at that position, with the counter advanced by that position; and it does
  return when the body succeeds on every date. When the body raises on a date, after
  succeeding on the dates before it, \<open>process_args\<close> raises the same exception, and its
  whole outcome, printed lines included, is that of the batch cut after the failing date:
  the later dates are never processed.
\<close>

theorem process_args_one_report_per_date_or_abort:
  "(\<forall>out reports. process_args p dates n path s y = (out, Inr reports) \<longrightarrow>
      length reports = length dates \<and>
      (\<forall>i<length dates.
          snd (process_date p (dates ! i) (n + int i) path s y) = Inr (reports ! i))) \<and>
   ((\<forall>i<length dates. \<not> isl (snd (process_date p (dates ! i) (n + int i) path s y))) \<longrightarrow>
      \<not> isl (snd (process_args p dates n path s y))) \<and>
   (\<forall>before d after e.
      dates = before @ d # after \<and>
      (\<forall>i<length before. \<not> isl (snd (process_date p (before ! i) (n + int i) path s y))) \<and>
      snd (process_date p d (n + int (length before)) path s y) = Inl e \<longrightarrow>
      snd (process_args p dates n path s y) = Inl e \<and>
      process_args p dates n path s y = process_args p (before @ [d]) n path s y)"
proof (intro conjI)
  show "\<forall>out reports. process_args p dates n path s y = (out, Inr reports) \<longrightarrow>
      length reports = length dates \<and>
      (\<forall>i<length dates.
          snd (process_date p (dates ! i) (n + int i) path s y) = Inr (reports ! i))"
  proof (intro allI impI)
    fix out reports
    assume "process_args p dates n path s y = (out, Inr reports)"
    then have "process_loop p dates n path s y [] = (out, Inr reports)"
      by (simp add: process_args_def)
    from process_loop_success[OF this]
    show "length reports = length dates \<and>
      (\<forall>i<length dates.
          snd (process_date p (dates ! i) (n + int i) path s y) = Inr (reports ! i))"
      by auto
  qed
  show "(\<forall>i<length dates. \<not> isl (snd (process_date p (dates ! i) (n + int i) path s y))) \<longrightarrow>
      \<not> isl (snd (process_args p dates n path s y))"
    unfolding process_args_def using process_loop_total by blast
  show "\<forall>before d after e.
      dates = before @ d # after \<and>
      (\<forall>i<length before. \<not> isl (snd (process_date p (before ! i) (n + int i) path s y))) \<and>
      snd (process_date p d (n + int (length before)) path s y) = Inl e \<longrightarrow>
      snd (process_args p dates n path s y) = Inl e \<and>
      process_args p dates n path s y = process_args p (before @ [d]) n path s y"
  proof (intro allI impI)
    fix before d after e
    assume a: "dates = before @ d # after \<and>
      (\<forall>i<length before. \<not> isl (snd (process_date p (before ! i) (n + int i) path s y))) \<and>
      snd (process_date p d (n + int (length before)) path s y) = Inl e"
    have 1: "snd (process_args p dates n path s y) = Inl e"
      unfolding process_args_def
      using a process_loop_error[of before p n path s y d e after "[]"] by simp
    have 2: "process_args p dates n path s y = process_args p (before @ [d]) n path s y"
      unfolding process_args_def
      using a process_loop_stops[of p d n before path s y e after "[]"] by simp
    show "snd (process_args p dates n path s y) = Inl e \<and>
      process_args p dates n path s y = process_args p (before @ [d]) n path s y"
      using 1 2 by simp
  qed
qed


lemma sample_july_query:
  "str_int 2011 @ CHR ''_'' # month_abbr Jul = ''2011_Jul''"
  "str_int 2011 @ CHR ''_'' # month_abbr Sep = ''2011_Sep''"
  by (simp_all add: str_int_def str_nat.simps digit_char_def month_abbr_def)

lemma sample_month_files:
  "get_files sample_platform ''weatherfiles'' ''2011_Jul'' =
     Inr [''weatherfiles/Murree_weather_2011_Jul.txt'']"
  "get_files sample_platform ''weatherfiles'' ''2011_Sep'' = Inr []"
  by (simp_all add: sample_platform_def reader_eval)

lemma sample_july_monthly:
  "get_monthly_readings sample_platform ''weatherfiles'' ''2011/7'' = Inr july_readings"
  by (simp add: get_monthly_readings_def sample_strptime sample_july_query sample_month_files
      sample_july_rows sample_july_loop bind_result_def del: monthly_loop.simps)

lemma sample_september_monthly:
  "get_monthly_readings sample_platform ''weatherfiles'' ''2011/9'' = Inl IndexError"
  by (simp add: get_monthly_readings_def sample_strptime sample_july_query sample_month_files
      bind_result_def)

lemma sample_july_average:
  "compute_monthly_average sample_platform july_readings =
     Inr \<lparr>max_temp_avg = 32, min_temp_avg = 20, mean_humidity_avg = 62\<rparr>"
  by (simp add: july_readings_def compute_monthly_average_def average_day_def add_field_def
      dict_get_def bind_result_def rounded_mean_def round_half_even_def sample_platform_def
      sample_sums_def sample_quotients_def)

lemma sample_process_july:
  "process_date sample_platform ''2011/7'' n ''weatherfiles'' average_strategies False =
     ([CHR 0x0A # ''Report # '' @ str_int n, ''Highest Average: 32C'', ''Lowest Average: 20C'',
       ''Average Mean Humidity: 62%''],
      Inr july_report)"
  by (simp add: process_date_def average_strategies_def sample_july_monthly sample_july_average
      bind_result_def generate_average_report_def july_report_def str_int_def str_nat.simps
      digit_char_def)

lemma sample_process_september:
  "process_date sample_platform ''2011/9'' n ''weatherfiles'' average_strategies False =
     ([CHR 0x0A # ''Report # '' @ str_int n], Inl IndexError)"
  by (simp add: process_date_def average_strategies_def sample_september_monthly bind_result_def)

theorem process_args_one_report_per_date_or_abort_witness:
  "process_args sample_platform [''2011/7'', ''2011/7''] 1 ''weatherfiles'' average_strategies False =
     ([CHR 0x0A # ''Report # 1'', ''Highest Average: 32C'', ''Lowest Average: 20C'',
       ''Average Mean Humidity: 62%'',
       CHR 0x0A # ''Report # 2'', ''Highest Average: 32C'', ''Lowest Average: 20C'',
       ''Average Mean Humidity: 62%''],
      Inr [july_report, july_report]) \<and>
   snd (process_date sample_platform ''2011/9'' 2 ''weatherfiles'' average_strategies False) =
     Inl IndexError \<and>
   process_args sample_platform [''2011/7'', ''2011/9'', ''2011/7''] 1 ''weatherfiles''
       average_strategies False =
     ([CHR 0x0A # ''Report # 1'', ''Highest Average: 32C'', ''Lowest Average: 20C'',
       ''Average Mean Humidity: 62%'', CHR 0x0A # ''Report # 2''],
      Inl IndexError)"
proof -
  let ?run = "\<lambda>dates. process_args sample_platform dates 1 ''weatherfiles'' average_strategies False"
  have two: "?run [''2011/7'', ''2011/7''] =
     ([CHR 0x0A # ''Report # 1'', ''Highest Average: 32C'', ''Lowest Average: 20C'',
       ''Average Mean Humidity: 62%'',
       CHR 0x0A # ''Report # 2'', ''Highest Average: 32C'', ''Lowest Average: 20C'',
       ''Average Mean Humidity: 62%''],
      Inr [july_report, july_report])"
    by (simp add: process_args_def sample_process_july str_int_def str_nat.simps digit_char_def)
  have cut: "?run [''2011/7'', ''2011/9''] =
     ([CHR 0x0A # ''Report # 1'', ''Highest Average: 32C'', ''Lowest Average: 20C'',
       ''Average Mean Humidity: 62%'', CHR 0x0A # ''Report # 2''],
      Inl IndexError)"
    by (simp add: process_args_def sample_process_july sample_process_september
        str_int_def str_nat.simps digit_char_def)
  have sep: "snd (process_date sample_platform ''2011/9'' 2 ''weatherfiles'' average_strategies
      False) = Inl IndexError"
    by (simp add: sample_process_september)
  have ok: "\<forall>i<length [''2011/7'']. \<not> isl (snd (process_date sample_platform
      ([''2011/7''] ! i) (1 + int i) ''weatherfiles'' average_strategies False))"
    by (simp add: sample_process_july)
  have "?run [''2011/7'', ''2011/9'', ''2011/7''] = ?run ([''2011/7''] @ [''2011/9''])"
    using process_args_one_report_per_date_or_abort[of sample_platform
        "[''2011/7'', ''2011/9'', ''2011/7'']" 1 "''weatherfiles''" average_strategies False,
        THEN conjunct2, THEN conjunct2, rule_format,
        of "[''2011/7'']" "''2011/9''" "[''2011/7'']" IndexError]
      ok sep
    by simp
  then show ?thesis using two cut sep by simp
qed

end
